theory Spec2Isabelle
  imports Complex_Main
begin

section \<open>Shared vocabulary\<close>

text \<open>
  Go errors are values; a runtime panic (an index out of range, a failed type assertion,
  a negative \<^verbatim>\<open>make\<close> length) is kept apart from them by its own constructor, so
  that every way a function can stop is a branch of its model.
  \<^item> \<open>UnknownFunctionError n\<close> is \<^verbatim>\<open>parse.UnknownFunctionError(funcExpr.Func)\<close>;
  \<^item> \<open>ErrNotImplemented s\<close> is \<^verbatim>\<open>errors.Wrapf(parse.ErrNotImplemented, "got %s:", s)\<close>;
  \<^item> \<open>Errorf s\<close> is \<^verbatim>\<open>fmt.Errorf\<close> with the formatted message \<open>s\<close>;
  \<^item> \<open>Err s\<close> is any error made by a collaborator (a child operator, the context).
\<close>

datatype error =
    UnknownFunctionError string
  | ErrNotImplemented string
  | Errorf string
  | Err string
  | Panic string

text \<open>
  \<^verbatim>\<open>time.Duration\<close> is a signed count of nanoseconds and \<^verbatim>\<open>Time.UnixMilli()\<close> a signed
  count of milliseconds. Nothing here adds or multiplies them, so no overflow can occur and
  they are integers. \<^verbatim>\<open>Duration.Milliseconds()\<close> is Go's integer division by \<open>10^6\<close>,
  which truncates towards zero.
\<close>

type_synonym Duration = int
type_synonym Time = int

definition Milliseconds :: "Duration \<Rightarrow> int" where
  "Milliseconds d = sgn d * (\<bar>d\<bar> div 1000000)"


section \<open>Package executionplan: the plan builder\<close>

text \<open>
  The parser's expression tree (\<^verbatim>\<open>prometheus/promql/parser\<close>) with the fields the builder
  reads. A \<open>MatrixSelector\<close> holds its vector selector as an expression, as the parser
  declares it; the builder narrows it with a type assertion.
\<close>

datatype ItemType =
    Item_SUM | Item_AVG | Item_COUNT | Item_MIN | Item_MAX | Item_GROUP | Item_STDDEV
  | Item_STDVAR | Item_TOPK | Item_BOTTOMK | Item_COUNT_VALUES | Item_QUANTILE
  | Item_ADD | Item_SUB | Item_MUL | Item_DIV

datatype MatchType = MatchEqual | MatchNotEqual | MatchRegexp | MatchNotRegexp

type_synonym Matcher = "MatchType \<times> string \<times> string"

datatype Expr =
    AggregateExpr ItemType Expr "Expr option" "string list" bool
      \<comment> \<open>Op, Expr, Param, Grouping, Without\<close>
  | BinaryExpr ItemType Expr Expr
  | Call string "Expr list"
      \<comment> \<open>Func.Name, Args\<close>
  | MatrixSelector Expr Duration
      \<comment> \<open>VectorSelector, Range\<close>
  | SubqueryExpr Expr Duration
  | NumberLiteral rat
  | ParenExpr Expr
  | StringLiteral string
  | UnaryExpr ItemType Expr
  | StepInvariantExpr Expr
  | VectorSelector string "Matcher list"
      \<comment> \<open>Name, LabelMatchers\<close>

text \<open>
  The operators the builder makes. \<open>'s\<close> is the storage handle, which the builder only
  passes on.
\<close>

datatype 's VectorOperator =
    aggregate "'s VectorOperator" ItemType bool "string list"
  | vectorSelector 's "Matcher list" Time Time Duration
  | matrixSelector 's "Matcher list" Time Time Duration Duration
  | concurrent "'s VectorOperator"

text \<open>
  Modelled from the spec: \<^verbatim>\<open>NewAggregate\<close>, \<^verbatim>\<open>NewVectorSelector\<close>,
  \<^verbatim>\<open>NewMatrixSelector\<close> and \<^verbatim>\<open>concurrent\<close> are called by the builder and are not
  in the source. Each constructor records the arguments it is given, in the order the
  builder gives them (the \<^verbatim>\<open>nil\<close> hints argument of the selectors is left out).
  \<^verbatim>\<open>NewAggregate\<close> can fail: the spec says that unknown aggregation operators are
  rejected at construction time; which ones are known is the parameter \<open>known\<close>.
\<close>

definition NewAggregate ::
  "(ItemType \<Rightarrow> bool) \<Rightarrow> 's VectorOperator \<Rightarrow> ItemType \<Rightarrow> bool \<Rightarrow> string list
     \<Rightarrow> error + 's VectorOperator" where
  "NewAggregate known next' op flag labels =
     (if known op then Inr (aggregate next' op flag labels)
      else Inl (Err ''unknown aggregation''))"

definition NewVectorSelector ::
  "'s \<Rightarrow> Matcher list \<Rightarrow> Time \<Rightarrow> Time \<Rightarrow> Duration \<Rightarrow> 's VectorOperator" where
  "NewVectorSelector storage matchers mint maxt step = vectorSelector storage matchers mint maxt step"

definition NewMatrixSelector ::
  "'s \<Rightarrow> Matcher list \<Rightarrow> Time \<Rightarrow> Time \<Rightarrow> Duration \<Rightarrow> Duration \<Rightarrow> 's VectorOperator" where
  "NewMatrixSelector storage matchers mint maxt step rng =
     matrixSelector storage matchers mint maxt step rng"

text \<open>
  \<^verbatim>\<open>newOperator\<close>, case by case in the order of the type switch. \<open>str\<close> is the parser's
  \<^verbatim>\<open>String()\<close> method, which \<^verbatim>\<open>%s\<close> prints. In the \<^verbatim>\<open>*parser.Call\<close> case the
  source reads \<^verbatim>\<open>e.Args[0]\<close> before anything else, which panics on a call without
  arguments, and asserts \<^verbatim>\<open>t.VectorSelector.(*parser.VectorSelector)\<close>, which panics on
  any other expression.
\<close>

fun newOperator ::
  "(Expr \<Rightarrow> string) \<Rightarrow> (ItemType \<Rightarrow> bool) \<Rightarrow> Expr \<Rightarrow> 's \<Rightarrow> Time \<Rightarrow> Time \<Rightarrow> Duration
     \<Rightarrow> error + 's VectorOperator" where
  "newOperator str known (AggregateExpr op e param grouping without) storage mint maxt step =
     (case newOperator str known e storage mint maxt step of
        Inl err \<Rightarrow> Inl err
      | Inr next' \<Rightarrow>
          (case NewAggregate known next' op (\<not> without) grouping of
             Inl err \<Rightarrow> Inl err
           | Inr aggregate' \<Rightarrow> Inr (concurrent aggregate')))"
| "newOperator str known (VectorSelector name matchers) storage mint maxt step =
     Inr (concurrent (NewVectorSelector storage matchers mint maxt step))"
| "newOperator str known (Call f []) storage mint maxt step =
     Inl (Panic ''index out of range [0] with length 0'')"
| "newOperator str known (Call f (MatrixSelector (VectorSelector name matchers) rng # rest))
       storage mint maxt step =
     Inr (concurrent (NewMatrixSelector storage matchers mint maxt step rng))"
| "newOperator str known (Call f (MatrixSelector t rng # rest)) storage mint maxt step =
     Inl (Panic ''interface conversion: parser.Expr is not *parser.VectorSelector'')"
| "newOperator str known (Call f (t # rest)) storage mint maxt step =
     Inl (Errorf (''unsupported expression '' @ str (Call f (t # rest))))"
| "newOperator str known e storage mint maxt step =
     Inl (Errorf (''unsupported expression '' @ str e))"

definition New ::
  "(Expr \<Rightarrow> string) \<Rightarrow> (ItemType \<Rightarrow> bool) \<Rightarrow> Expr \<Rightarrow> 's \<Rightarrow> Time \<Rightarrow> Time \<Rightarrow> Duration
     \<Rightarrow> error + 's VectorOperator" where
  "New str known expr storage mint maxt step = newOperator str known expr storage mint maxt step"


section \<open>Package function: the function operators\<close>

subsection \<open>Values, labels and step vectors\<close>

text \<open>
  The operator moves \<^verbatim>\<open>float64\<close> values around and hands them to the function body; it
  never computes with them. The carrier therefore only separates the not-a-number that the
  operator itself makes (\<^verbatim>\<open>math.NaN()\<close>) from the other values.
\<close>

datatype float64 = NaN | Float rat

type_synonym Label = "string \<times> string"
type_synonym Labels = "Label list"

definition MetricName :: string where
  "MetricName = ''__name__''"

text \<open>
  Modelled from the spec: \<^verbatim>\<open>model.StepVector\<close> and its methods \<^verbatim>\<open>RemoveSample\<close>,
  \<^verbatim>\<open>RemoveHistogram\<close> and \<^verbatim>\<open>AppendSample\<close> are not in the source. The spec describes
  a step vector as an ordered sequence of scalar samples and an ordered sequence of histogram
  samples, each sample tagged with a sample ID; the field names are the ones the operator
  uses. The IDs are kept in a slice parallel to the values. Removal at an index deletes that
  position from the value slice and from the ID slice (an in-place compaction); appending adds
  the ID and the value at the end. \<open>'h\<close> is the histogram type, opaque to the operator.
\<close>

record 'h StepVector =
  T :: int
  SampleIDs :: "nat list"
  Samples :: "float64 list"
  HistogramIDs :: "nat list"
  Histograms :: "'h list"

definition Delete :: "'a list \<Rightarrow> nat \<Rightarrow> 'a list" where
  "Delete s i = take i s @ drop (Suc i) s"

definition RemoveSample :: "'h StepVector \<Rightarrow> nat \<Rightarrow> 'h StepVector" where
  "RemoveSample s index =
     s\<lparr>Samples := Delete (Samples s) index, SampleIDs := Delete (SampleIDs s) index\<rparr>"

definition RemoveHistogram :: "'h StepVector \<Rightarrow> nat \<Rightarrow> 'h StepVector" where
  "RemoveHistogram s index =
     s\<lparr>Histograms := Delete (Histograms s) index, HistogramIDs := Delete (HistogramIDs s) index\<rparr>"

definition AppendSample :: "'h StepVector \<Rightarrow> nat \<Rightarrow> float64 \<Rightarrow> 'h StepVector" where
  "AppendSample s ident v = s\<lparr>SampleIDs := SampleIDs s @ [ident], Samples := Samples s @ [v]\<rparr>"

subsection \<open>Child operators and the context\<close>

text \<open>
  Modelled from the spec: the interface \<^verbatim>\<open>model.VectorOperator\<close> is not in the source,
  and the children of a function operator are arbitrary implementations of it. A child is
  given by what it answers: the result of \<^verbatim>\<open>Series\<close>, and the results of its successive
  \<^verbatim>\<open>Next\<close> calls (an exhausted child answers the empty batch without an error, as the
  protocol of the spec says). The two counters record how often the child has been pulled.
  The pools (\<^verbatim>\<open>GetPool\<close>, \<^verbatim>\<open>PutStepVector\<close>, \<^verbatim>\<open>PutVectors\<close>) only recycle buffers
  whose values have been read before, and are left out.
\<close>

record 'h Child =
  seriesResult :: "error + Labels list"
  nextResults :: "(error + 'h StepVector list) list"
  seriesCalls :: nat
  nextCalls :: nat

definition child_Series :: "'h Child \<Rightarrow> (error + Labels list) \<times> 'h Child" where
  "child_Series c = (seriesResult c, c\<lparr>seriesCalls := Suc (seriesCalls c)\<rparr>)"

definition child_Next :: "'h Child \<Rightarrow> (error + 'h StepVector list) \<times> 'h Child" where
  "child_Next c =
     (case nextResults c of
        [] \<Rightarrow> (Inr [], c\<lparr>nextCalls := Suc (nextCalls c)\<rparr>)
      | r # rs \<Rightarrow> (r, c\<lparr>nextResults := rs, nextCalls := Suc (nextCalls c)\<rparr>))"

text \<open>A context is either live (\<open>None\<close>) or done with the error \<^verbatim>\<open>ctx.Err()\<close>.\<close>

type_synonym Context = "error option"

subsection \<open>The operator\<close>

text \<open>
  \<^verbatim>\<open>functionCall\<close> is the type of the function bodies:
  \<^verbatim>\<open>func(f float64, h *histogram.FloatHistogram, vargs ...float64) (float64, bool)\<close>,
  as the two calls in \<^verbatim>\<open>Next\<close> use it. Of a \<^verbatim>\<open>*parser.Call\<close> the operators read the
  function's name, the value type of each argument and the textual form.
\<close>

type_synonym 'h functionCall = "float64 \<Rightarrow> 'h option \<Rightarrow> float64 list \<Rightarrow> float64 \<times> bool"

datatype ValueType =
  ValueTypeNone | ValueTypeVector | ValueTypeScalar | ValueTypeMatrix | ValueTypeString

record parser_Call =
  Func_Name :: string
  Args_Type :: "ValueType list"
  String :: string

text \<open>\<open>once\<close> is the state of the \<^verbatim>\<open>sync.Once\<close>: whether \<^verbatim>\<open>Do\<close> has already run.\<close>

record 'h functionOperator =
  funcExpr :: parser_Call
  series :: "Labels list"
  once :: bool
  vectorIndex :: nat
  nextOps :: "'h Child list"
  call :: "'h functionCall"
  scalarPoints :: "float64 list list"

text \<open>
  \<^verbatim>\<open>dropLabel\<close>: the \<^verbatim>\<open>Range\<close> callback either remembers the label as the dropped one
  or adds it to the builder, which starts empty after \<^verbatim>\<open>Reset\<close>.
\<close>

fun dropLabel_Range :: "string \<Rightarrow> Labels \<Rightarrow> Labels \<times> Label \<Rightarrow> Labels \<times> Label" where
  "dropLabel_Range name [] (b, ret) = (b, ret)"
| "dropLabel_Range name (l # ls) (b, ret) =
     (if fst l = name then dropLabel_Range name ls (b, l)
      else dropLabel_Range name ls (b @ [l], ret))"

definition dropLabel :: "Labels \<Rightarrow> string \<Rightarrow> Labels \<times> Label" where
  "dropLabel l name =
     (if l = [] then (l, ([], [])) else dropLabel_Range name l ([], ([], [])))"

definition DropMetricName :: "Labels \<Rightarrow> Labels \<times> Label" where
  "DropMetricName l = dropLabel l MetricName"

text \<open>
  \<^verbatim>\<open>loadSeries\<close>: the body runs only while \<open>once\<close> is unset, and \<^verbatim>\<open>sync.Once\<close> counts
  the body as run however it ends. The error is a local variable of the call, set by the
  body, so a call that does not run the body returns no error.
\<close>

definition loadSeries :: "'h functionOperator \<Rightarrow> error option \<times> 'h functionOperator" where
  "loadSeries opr =
     (if once opr then (None, opr)
      else if Func_Name (funcExpr opr) = ''vector''
        then (None, opr\<lparr>series := [[]], once := True\<rparr>)
      else if length (nextOps opr) \<le> vectorIndex opr
        then (Some (Panic ''index out of range''), opr\<lparr>once := True\<rparr>)
      else
        (case child_Series (nextOps opr ! vectorIndex opr) of
           (Inl loadErr, c) \<Rightarrow>
             (Some loadErr, opr\<lparr>nextOps := (nextOps opr)[vectorIndex opr := c], once := True\<rparr>)
         | (Inr series', c) \<Rightarrow>
             (None, opr\<lparr>nextOps := (nextOps opr)[vectorIndex opr := c],
                         series := map (\<lambda>s. fst (DropMetricName s)) series',
                         once := True\<rparr>)))"

definition Series ::
  "Context \<Rightarrow> 'h functionOperator \<Rightarrow> (error + Labels list) \<times> 'h functionOperator" where
  "Series ctx opr =
     (case loadSeries opr of
        (Some err, opr') \<Rightarrow> (Inl err, opr')
      | (None, opr') \<Rightarrow> (Inr (series opr'), opr'))"

subsection \<open>Next\<close>

text \<open>
  The inner loop of the scalar arguments, \<^verbatim>\<open>for batchIndex := range vectors\<close>, over the
  indices still to visit. \<^verbatim>\<open>scalarVectors[batchIndex]\<close> is read only when
  \<^verbatim>\<open>scalarVectors\<close> is not empty and panics when it is too short; the write to
  \<^verbatim>\<open>o.scalarPoints[batchIndex][scalarIndex]\<close> panics outside either slice.
\<close>

fun fillScalarPoints ::
  "'h StepVector list \<Rightarrow> nat \<Rightarrow> nat list \<Rightarrow> float64 list list \<Rightarrow> error + float64 list list" where
  "fillScalarPoints scalarVectors scalarIndex [] points = Inr points"
| "fillScalarPoints scalarVectors scalarIndex (batchIndex # rest) points =
     (if scalarVectors \<noteq> [] \<and> length scalarVectors \<le> batchIndex
        then Inl (Panic ''index out of range'')
      else
        (let v = (if scalarVectors \<noteq> [] \<and> Samples (scalarVectors ! batchIndex) \<noteq> []
                  then hd (Samples (scalarVectors ! batchIndex)) else NaN)
         in if length points \<le> batchIndex then Inl (Panic ''index out of range'')
            else if length (points ! batchIndex) \<le> scalarIndex
              then Inl (Panic ''index out of range'')
            else fillScalarPoints scalarVectors scalarIndex rest
                   (points[batchIndex := (points ! batchIndex)[scalarIndex := v]])))"

text \<open>
  The outer loop, \<^verbatim>\<open>for i := range o.nextOps\<close>, over the indices still to visit, for a
  vector batch of \<open>n\<close> steps. A failing child ends the call at once.
\<close>

fun pullScalars ::
  "nat \<Rightarrow> nat list \<Rightarrow> nat \<Rightarrow> 'h functionOperator \<Rightarrow> error option \<times> 'h functionOperator" where
  "pullScalars n [] scalarIndex opr = (None, opr)"
| "pullScalars n (i # rest) scalarIndex opr =
     (if i = vectorIndex opr then pullScalars n rest scalarIndex opr
      else
        (case child_Next (nextOps opr ! i) of
           (Inl err, c) \<Rightarrow> (Some err, opr\<lparr>nextOps := (nextOps opr)[i := c]\<rparr>)
         | (Inr scalarVectors, c) \<Rightarrow>
             (case fillScalarPoints scalarVectors scalarIndex [0..<n] (scalarPoints opr) of
                Inl p \<Rightarrow> (Some p, opr\<lparr>nextOps := (nextOps opr)[i := c]\<rparr>)
              | Inr points \<Rightarrow>
                  pullScalars n rest (Suc scalarIndex)
                    (opr\<lparr>nextOps := (nextOps opr)[i := c], scalarPoints := points\<rparr>))))"

text \<open>
  The loop over the scalar samples of one step. The source reads and writes the samples
  through \<^verbatim>\<open>vector\<close>, a copy of the step vector's slice headers, and removes through
  \<^verbatim>\<open>vectors[batchIndex]\<close>; both see the same backing array, and every index used is
  below the current length, so one value models both.
\<close>

function applySamples ::
  "'h functionCall \<Rightarrow> float64 list \<Rightarrow> nat \<Rightarrow> 'h StepVector \<Rightarrow> 'h StepVector" where
  "applySamples f args i vector =
     (if i < length (Samples vector) then
        (let r = f (Samples vector ! i) None args
         in if snd r
            then applySamples f args (Suc i) (vector\<lparr>Samples := (Samples vector)[i := fst r]\<rparr>)
            else applySamples f args i (RemoveSample vector i))
      else vector)"
  by pat_completeness auto
termination
  by (relation "measure (\<lambda>(f, args, i, vector). length (Samples vector) - i)")
     (auto simp: RemoveSample_def Delete_def)

text \<open>
  The loop over the histogram samples of one step: \<^verbatim>\<open>i\<close> stays 0, and every round
  removes the first histogram. \<^verbatim>\<open>HistogramIDs[i]\<close> panics when there is no such ID.
\<close>

function applyHistograms ::
  "'h functionCall \<Rightarrow> float64 list \<Rightarrow> 'h StepVector \<Rightarrow> error + 'h StepVector" where
  "applyHistograms f args vector =
     (if 0 < length (Histograms vector) then
        (let r = f (Float 0) (Some (Histograms vector ! 0)) args
         in if HistogramIDs vector = [] then Inl (Panic ''index out of range'')
            else
              (let sampleID = HistogramIDs vector ! 0;
                   removed = RemoveHistogram vector 0
               in applyHistograms f args
                    (if snd r then AppendSample removed sampleID (fst r) else removed)))
      else Inr vector)"
  by pat_completeness auto
termination
  by (relation "measure (\<lambda>(f, args, vector). length (Histograms vector))")
     (auto simp: RemoveHistogram_def AppendSample_def Delete_def)

text \<open>
  One round of \<^verbatim>\<open>for batchIndex, vector := range vectors\<close>. The row
  \<^verbatim>\<open>o.scalarPoints[batchIndex]\<close> is read only inside the two loops, so a step without
  samples and histograms never reads it; otherwise a missing row panics.
\<close>

definition applyStep ::
  "'h functionOperator \<Rightarrow> nat \<Rightarrow> 'h StepVector \<Rightarrow> error + 'h StepVector" where
  "applyStep opr batchIndex vector =
     (if Samples vector = [] \<and> Histograms vector = [] then Inr vector
      else if length (scalarPoints opr) \<le> batchIndex then Inl (Panic ''index out of range'')
      else applyHistograms (call opr) (scalarPoints opr ! batchIndex)
             (applySamples (call opr) (scalarPoints opr ! batchIndex) 0 vector))"

fun applyBatch ::
  "'h functionOperator \<Rightarrow> nat \<Rightarrow> 'h StepVector list \<Rightarrow> error + 'h StepVector list" where
  "applyBatch opr batchIndex [] = Inr []"
| "applyBatch opr batchIndex (vector # rest) =
     (case applyStep opr batchIndex vector of
        Inl p \<Rightarrow> Inl p
      | Inr vector' \<Rightarrow>
          (case applyBatch opr (Suc batchIndex) rest of
             Inl p \<Rightarrow> Inl p
           | Inr rest' \<Rightarrow> Inr (vector' # rest')))"

text \<open>
  \<^verbatim>\<open>Next\<close>. The result \<^verbatim>\<open>nil, nil\<close> is the empty batch. The operator is returned
  with what the call changed: the \<open>once\<close> flag and the series, the children pulled, the
  scalar points.
\<close>

definition Next ::
  "Context \<Rightarrow> 'h functionOperator \<Rightarrow> (error + 'h StepVector list) \<times> 'h functionOperator" where
  "Next ctx opr =
     (case ctx of
        Some err \<Rightarrow> (Inl err, opr)
      | None \<Rightarrow>
          (case loadSeries opr of
             (Some err, opr1) \<Rightarrow> (Inl err, opr1)
           | (None, opr1) \<Rightarrow>
               if length (nextOps opr1) \<le> vectorIndex opr1
                 then (Inl (Panic ''index out of range''), opr1)
               else
                 (case child_Next (nextOps opr1 ! vectorIndex opr1) of
                    (Inl err, c) \<Rightarrow>
                      (Inl err, opr1\<lparr>nextOps := (nextOps opr1)[vectorIndex opr1 := c]\<rparr>)
                  | (Inr vectors, c) \<Rightarrow>
                      (let opr2 = opr1\<lparr>nextOps := (nextOps opr1)[vectorIndex opr1 := c]\<rparr>
                       in if vectors = [] then (Inr [], opr2)
                          else
                            (case pullScalars (length vectors) [0..<length (nextOps opr2)] 0 opr2 of
                               (Some err, opr3) \<Rightarrow> (Inl err, opr3)
                             | (None, opr3) \<Rightarrow>
                                 (case applyBatch opr3 0 vectors of
                                    Inl p \<Rightarrow> (Inl p, opr3)
                                  | Inr out \<Rightarrow> (Inr out, opr3)))))))"

subsection \<open>The constructors\<close>

text \<open>
  \<^verbatim>\<open>query.Options\<close> with the three fields the constructors read; \<open>Start\<close> and \<open>End\<close>
  stand for \<^verbatim>\<open>opts.Start.UnixMilli()\<close> and \<^verbatim>\<open>opts.End.UnixMilli()\<close>. A pool is
  represented by the call that makes it.
\<close>

record Options =
  Start :: Time
  End :: Time
  Step :: Duration

datatype VectorPool = NewVectorPool int | NewVectorPoolWithSize int int

type_synonym noArgFunctionCall = "int \<Rightarrow> float64"

record noArgFunctionOperator =
  na_currentStep :: int
  na_mint :: int
  na_maxt :: int
  na_step :: int
  na_stepsBatch :: int
  na_funcExpr :: parser_Call
  na_call :: noArgFunctionCall
  na_vectorPool :: VectorPool
  na_series :: "Labels list"
  na_sampleIDs :: "nat list"

text \<open>
  What \<^verbatim>\<open>NewFunctionOperator\<close> can return. The four special operators are declared
  elsewhere; each is represented by the fields the constructor sets.
\<close>

datatype 'h Operator =
    scalarFunctionOperator "'h Child" VectorPool
  | relabelFunctionOperator "'h Child" parser_Call
  | absentOperator "'h Child" VectorPool parser_Call
  | histogramOperator VectorPool parser_Call "'h Child" "'h Child" "float64 list"
  | NoArgFunctionOperator noArgFunctionOperator
  | FunctionOperator "'h functionOperator"

text \<open>
  The dispatch tables \<^verbatim>\<open>noArgFuncs\<close> and \<^verbatim>\<open>instantVectorFuncs\<close> are package
  variables declared elsewhere; the constructors take them as parameters.
\<close>

definition newNoArgsFunctionOperator ::
  "(string \<rightharpoonup> noArgFunctionCall) \<Rightarrow> parser_Call \<Rightarrow> int \<Rightarrow> Options \<Rightarrow> error + 'h Operator" where
  "newNoArgsFunctionOperator noArgFuncs fe stepsBatch opts =
     (case noArgFuncs (Func_Name fe) of
        None \<Rightarrow> Inl (UnknownFunctionError (Func_Name fe))
      | Some c \<Rightarrow>
          (let interval = Milliseconds (Step opts);
               interval = (if interval = 0 then 1 else interval)
           in Inr (NoArgFunctionOperator
                \<lparr>na_currentStep = Start opts,
                 na_mint = Start opts,
                 na_maxt = End opts,
                 na_step = interval,
                 na_stepsBatch = stepsBatch,
                 na_funcExpr = fe,
                 na_call = c,
                 na_vectorPool = NewVectorPool stepsBatch,
                 na_series = (if Func_Name fe = ''pi'' \<or> Func_Name fe = ''time'' then [] else [[]]),
                 na_sampleIDs = [0]\<rparr>)))"

text \<open>
  The loop \<^verbatim>\<open>for i := range funcExpr.Args\<close> that looks for the first vector argument;
  \<open>None\<close> when it ends without a \<^verbatim>\<open>break\<close>, which leaves \<^verbatim>\<open>vectorIndex\<close> at 0.
\<close>

fun firstVector :: "nat \<Rightarrow> ValueType list \<Rightarrow> nat option" where
  "firstVector i [] = None"
| "firstVector i (t # ts) = (if t = ValueTypeVector then Some i else firstVector (Suc i) ts)"

text \<open>
  \<^verbatim>\<open>make\<close> panics on a negative length: \<^verbatim>\<open>stepsBatch\<close> for the outer slice, and
  \<^verbatim>\<open>len(nextOps)-1\<close> for a row, which is made only when \<^verbatim>\<open>stepsBatch\<close> is positive.
  \<^verbatim>\<open>funcExpr.Args[f.vectorIndex]\<close> panics when the call has no arguments.
\<close>

definition newInstantVectorFunctionOperator ::
  "(string \<rightharpoonup> 'h functionCall) \<Rightarrow> parser_Call \<Rightarrow> 'h Child list \<Rightarrow> int \<Rightarrow> Options
     \<Rightarrow> error + 'h Operator" where
  "newInstantVectorFunctionOperator instantVectorFuncs fe ops stepsBatch opts =
     (case instantVectorFuncs (Func_Name fe) of
        None \<Rightarrow> Inl (UnknownFunctionError (Func_Name fe))
      | Some c \<Rightarrow>
          if stepsBatch < 0 \<or> (0 < stepsBatch \<and> ops = [])
            then Inl (Panic ''makeslice: len out of range'')
          else
            (let f = \<lparr>funcExpr = fe, series = [], once = False, vectorIndex = 0, nextOps = ops,
                      call = c,
                      scalarPoints = replicate (nat stepsBatch) (replicate (length ops - 1) (Float 0))\<rparr>;
                 f = (case firstVector 0 (Args_Type fe) of
                        None \<Rightarrow> f
                      | Some i \<Rightarrow> f\<lparr>vectorIndex := i\<rparr>)
             in if length (Args_Type fe) \<le> vectorIndex f then Inl (Panic ''index out of range'')
                else
                  (case Args_Type fe ! vectorIndex f of
                     ValueTypeVector \<Rightarrow> Inr (FunctionOperator f)
                   | ValueTypeScalar \<Rightarrow> Inr (FunctionOperator f)
                   | _ \<Rightarrow> Inl (ErrNotImplemented (''got '' @ String fe @ '':'')))))"

text \<open>
  \<^verbatim>\<open>NewFunctionOperator\<close>: the switch on the name, then the two remaining constructors.
  \<^verbatim>\<open>nextOps[0]\<close> and \<^verbatim>\<open>nextOps[1]\<close> panic when the child is missing, and
  \<^verbatim>\<open>make([]float64, stepsBatch)\<close> on a negative length.
\<close>

definition NewFunctionOperator ::
  "(string \<rightharpoonup> noArgFunctionCall) \<Rightarrow> (string \<rightharpoonup> 'h functionCall) \<Rightarrow> parser_Call \<Rightarrow> 'h Child list
     \<Rightarrow> int \<Rightarrow> Options \<Rightarrow> error + 'h Operator" where
  "NewFunctionOperator noArgFuncs instantVectorFuncs fe ops stepsBatch opts =
     (if Func_Name fe = ''scalar'' then
        (case ops of
           [] \<Rightarrow> Inl (Panic ''index out of range'')
         | next0 # _ \<Rightarrow> Inr (scalarFunctionOperator next0 (NewVectorPoolWithSize stepsBatch 1)))
      else if Func_Name fe = ''label_join'' \<or> Func_Name fe = ''label_replace'' then
        (case ops of
           [] \<Rightarrow> Inl (Panic ''index out of range'')
         | next0 # _ \<Rightarrow> Inr (relabelFunctionOperator next0 fe))
      else if Func_Name fe = ''absent'' then
        (case ops of
           [] \<Rightarrow> Inl (Panic ''index out of range'')
         | next0 # _ \<Rightarrow> Inr (absentOperator next0 (NewVectorPool stepsBatch) fe))
      else if Func_Name fe = ''histogram_quantile'' then
        (case ops of
           scalarOp # vectorOp # _ \<Rightarrow>
             if stepsBatch < 0 then Inl (Panic ''makeslice: len out of range'')
             else Inr (histogramOperator (NewVectorPool stepsBatch) fe scalarOp vectorOp
                         (replicate (nat stepsBatch) (Float 0)))
         | _ \<Rightarrow> Inl (Panic ''index out of range''))
      else if length ops = 0 then newNoArgsFunctionOperator noArgFuncs fe stepsBatch opts
      else newInstantVectorFunctionOperator instantVectorFuncs fe ops stepsBatch opts)"


section \<open>Notions used in the statements\<close>

text \<open>
  The scalar samples and the histogram samples of a step vector as lists of tagged
  values, and the invariant of the data model that the ID slices are parallel to the value
  slices.
\<close>

definition samples :: "'h StepVector \<Rightarrow> (nat \<times> float64) list" where
  "samples v = zip (SampleIDs v) (Samples v)"

definition histograms :: "'h StepVector \<Rightarrow> (nat \<times> 'h) list" where
  "histograms v = zip (HistogramIDs v) (Histograms v)"

definition wellFormed :: "'h StepVector \<Rightarrow> bool" where
  "wellFormed v =
     (length (SampleIDs v) = length (Samples v) \<and> length (HistogramIDs v) = length (Histograms v))"

text \<open>
  What a step must emit according to the spec: for the scalar samples whose call is valid,
  in their order, the ID with the value returned; for the histogram samples whose call is
  valid, in their order, the ID with the number returned. The call gets \<^verbatim>\<open>nil\<close> as the
  histogram of a scalar sample and \<^verbatim>\<open>0.\<close> as the value of a histogram sample.
\<close>

definition validSamples ::
  "'h functionCall \<Rightarrow> float64 list \<Rightarrow> (nat \<times> float64) list \<Rightarrow> (nat \<times> float64) list" where
  "validSamples f args xs =
     map (\<lambda>p. (fst p, fst (f (snd p) None args))) (filter (\<lambda>p. snd (f (snd p) None args)) xs)"

definition validHistograms ::
  "'h functionCall \<Rightarrow> float64 list \<Rightarrow> (nat \<times> 'h) list \<Rightarrow> (nat \<times> float64) list" where
  "validHistograms f args hs =
     map (\<lambda>p. (fst p, fst (f (Float 0) (Some (snd p)) args)))
       (filter (\<lambda>p. snd (f (Float 0) (Some (snd p)) args)) hs)"



text \<open>
  When a \<^verbatim>\<open>Next\<close> call with a live context gets through, for the batch \<open>vectors\<close> of
  the vector child: \<^verbatim>\<open>loadSeries\<close> returns no error, the vector child exists, every other
  child answers without an error with a batch that is empty or has a step vector for every
  step of \<open>vectors\<close>, and the scalar points have a row for every step and a column for
  every other child.
\<close>

definition ready :: "'h functionOperator \<Rightarrow> 'h StepVector list \<Rightarrow> bool" where
  "ready opr vectors =
     (fst (loadSeries opr) = None
      \<and> vectorIndex opr < length (nextOps opr)
      \<and> list_all (\<lambda>i. i = vectorIndex opr \<or>
                     (case fst (child_Next (nextOps opr ! i)) of
                        Inl err \<Rightarrow> False
                      | Inr scalarVectors \<Rightarrow>
                          scalarVectors = [] \<or> length vectors \<le> length scalarVectors))
           [0..<length (nextOps opr)]
      \<and> length vectors \<le> length (scalarPoints opr)
      \<and> list_all (\<lambda>row. length (nextOps opr) - 1 \<le> length row) (scalarPoints opr))"


text \<open>
  A run of calls on one operator instance: any sequence of \<^verbatim>\<open>Series\<close> and \<^verbatim>\<open>Next\<close>
  calls, each with its context; \<open>run\<close> gives the operator after the calls.
  \<open>seriesPulls\<close> lists, child by child, how often \<^verbatim>\<open>Series\<close> has been called on it.
\<close>

datatype pull = PullSeries Context | PullNext Context

fun run :: "pull list \<Rightarrow> 'h functionOperator \<Rightarrow> 'h functionOperator" where
  "run [] opr = opr"
| "run (PullSeries ctx # ps) opr = run ps (snd (Series ctx opr))"
| "run (PullNext ctx # ps) opr = run ps (snd (Next ctx opr))"

definition seriesPulls :: "'h functionOperator \<Rightarrow> nat list" where
  "seriesPulls opr = map seriesCalls (nextOps opr)"

text \<open>
  \<open>answers cs e\<close>: one of the children \<open>cs\<close> hands out the error \<open>e\<close>, from its
  \<^verbatim>\<open>Series\<close> or from one of its \<^verbatim>\<open>Next\<close> calls.
\<close>

definition answers :: "'h Child list \<Rightarrow> error \<Rightarrow> bool" where
  "answers cs e =
     (Inl e \<in> set (map seriesResult cs) \<or> Inl e \<in> set (concat (map nextResults cs)))"

text \<open>The step interval of a no-argument operator that a constructor returned.\<close>

definition stepInterval :: "error + 'h Operator \<Rightarrow> int option" where
  "stepInterval r =
     (case r of Inr (NoArgFunctionOperator op) \<Rightarrow> Some (na_step op) | _ \<Rightarrow> None)"



section \<open>A concrete operator\<close>

text \<open>
  An operator over three children, used to evaluate the code: the function takes a scalar, a
  vector and a second scalar. Its body adds the first scalar input to a scalar sample and
  rejects a not-a-number sample; of a histogram sample it makes the number 9, valid when the
  histogram (here a truth value) says so. The vector child answers one step with three scalar
  samples and two histogram samples; the first scalar child answers 10, the second no sample.
\<close>

definition ex_call :: "bool functionCall" where
  "ex_call v h args =
     (case h of
        Some valid \<Rightarrow> (Float 9, valid)
      | None \<Rightarrow>
          (case (v, args) of
             (Float x, Float a # _) \<Rightarrow> (Float (x + a), True)
           | _ \<Rightarrow> (NaN, False)))"

definition ex_vector :: "bool StepVector" where
  "ex_vector = \<lparr>T = 1000, SampleIDs = [0, 1, 2], Samples = [Float 1, NaN, Float 3],
                HistogramIDs = [5, 6], Histograms = [True, False]\<rparr>"

definition ex_scalar :: "bool StepVector" where
  "ex_scalar = \<lparr>T = 1000, SampleIDs = [0], Samples = [Float 10], HistogramIDs = [], Histograms = []\<rparr>"

definition ex_noSample :: "bool StepVector" where
  "ex_noSample = \<lparr>T = 1000, SampleIDs = [], Samples = [], HistogramIDs = [], Histograms = []\<rparr>"

definition ex_vectorOp :: "bool Child" where
  "ex_vectorOp = \<lparr>seriesResult = Inr [[(''__name__'', ''up''), (''job'', ''api'')], [(''job'', ''db'')], []],
                  nextResults = [Inr [ex_vector]], seriesCalls = 0, nextCalls = 0\<rparr>"

definition ex_scalarOp :: "bool Child" where
  "ex_scalarOp = \<lparr>seriesResult = Inr [[]], nextResults = [Inr [ex_scalar]], seriesCalls = 0, nextCalls = 0\<rparr>"

definition ex_noSampleOp :: "bool Child" where
  "ex_noSampleOp = \<lparr>seriesResult = Inr [[]], nextResults = [Inr [ex_noSample]], seriesCalls = 0, nextCalls = 0\<rparr>"

definition ex_operator :: "bool functionOperator" where
  "ex_operator =
     \<lparr>funcExpr = \<lparr>Func_Name = ''f'', Args_Type = [ValueTypeScalar, ValueTypeVector, ValueTypeScalar],
                   String = ''f(10, up, scalar(none))''\<rparr>,
      series = [], once = False, vectorIndex = 1,
      nextOps = [ex_scalarOp, ex_vectorOp, ex_noSampleOp],
      call = ex_call, scalarPoints = [[Float 0, Float 0]]\<rparr>"

text \<open>
  The function \<^verbatim>\<open>vector\<close> over one scalar child, and the first operator again over a
  vector child whose \<^verbatim>\<open>Series\<close> fails.
\<close>

definition ex_vectorFunction :: "bool functionOperator" where
  "ex_vectorFunction =
     \<lparr>funcExpr = \<lparr>Func_Name = ''vector'', Args_Type = [ValueTypeScalar], String = ''vector(10)''\<rparr>,
      series = [], once = False, vectorIndex = 0, nextOps = [ex_scalarOp],
      call = ex_call, scalarPoints = [[]]\<rparr>"

definition ex_failingOp :: "bool Child" where
  "ex_failingOp = \<lparr>seriesResult = Inl (Err ''storage unavailable''),
                   nextResults = [Inr [ex_vector]], seriesCalls = 0, nextCalls = 0\<rparr>"

definition ex_failing :: "bool functionOperator" where
  "ex_failing =
     \<lparr>funcExpr = \<lparr>Func_Name = ''f'', Args_Type = [ValueTypeScalar, ValueTypeVector, ValueTypeScalar],
                   String = ''f(10, up, scalar(none))''\<rparr>,
      series = [], once = False, vectorIndex = 1,
      nextOps = [ex_scalarOp, ex_failingOp, ex_noSampleOp],
      call = ex_call, scalarPoints = [[Float 0, Float 0]]\<rparr>"



text \<open>
  The operator that \<^verbatim>\<open>newInstantVectorFunctionOperator\<close> builds for \<^verbatim>\<open>f(up, 10)\<close>
  with a batch size of 2, over a vector child that answers two steps and a scalar child that
  answers one.
\<close>

definition ex_twoStepOp :: "bool Child" where
  "ex_twoStepOp = \<lparr>seriesResult = Inr [[(''__name__'', ''up'')]],
                   nextResults = [Inr [ex_vector, ex_vector]], seriesCalls = 0, nextCalls = 0\<rparr>"

definition ex_short :: "bool functionOperator" where
  "ex_short =
     \<lparr>funcExpr = \<lparr>Func_Name = ''f'', Args_Type = [ValueTypeVector, ValueTypeScalar],
                   String = ''f(up, 10)''\<rparr>,
      series = [], once = False, vectorIndex = 0,
      nextOps = [ex_twoStepOp, ex_scalarOp],
      call = ex_call, scalarPoints = [[Float 0], [Float 0]]\<rparr>"

text \<open>
  For the builder and the constructors: a printer of expressions, the predicate that knows
  every aggregation, and dispatch tables with one function each.
\<close>

definition ex_str :: "Expr \<Rightarrow> string" where
  "ex_str e = ''<expr>''"

definition ex_known :: "ItemType \<Rightarrow> bool" where
  "ex_known op = True"

definition ex_noArgFuncs :: "string \<rightharpoonup> noArgFunctionCall" where
  "ex_noArgFuncs = [''time'' \<mapsto> (\<lambda>t. Float (of_int t / 1000))]"

definition ex_instantVectorFuncs :: "string \<rightharpoonup> bool functionCall" where
  "ex_instantVectorFuncs = [''f'' \<mapsto> ex_call]"

section \<open>The plan builder: theorems\<close>

text \<open>
  C5, as the code has it. The builder makes an operator for an aggregation expression exactly
  when it makes one for the inner expression and the aggregation is known; the operator is
  then the concurrency decorator around the aggregate of the inner operator, with the
  aggregation operator and the grouping labels of the expression unchanged, and with the flag
  \<^verbatim>\<open>!e.Without\<close>: true exactly when the expression does not group by exclusion.
\<close>

theorem newOperator_aggregate:
  "(newOperator str known (AggregateExpr op e param grouping without) storage mint maxt step = Inr p)
   = (\<exists>next'. newOperator str known e storage mint maxt step = Inr next' \<and> known op \<and>
         p = concurrent (aggregate next' op (\<not> without) grouping))"
  by (auto simp: NewAggregate_def split: sum.splits)

theorem newOperator_aggregate_witness:
  "newOperator ex_str ex_known (AggregateExpr Item_AVG (VectorSelector ''up'' []) None [''instance''] False)
     () 0 60000 1000
   = Inr (concurrent (aggregate (concurrent (vectorSelector () [] 0 60000 1000)) Item_AVG True [''instance'']))"
  using newOperator_aggregate [of ex_str ex_known Item_AVG "VectorSelector ''up'' []" None
          "[''instance'']" False "()" 0 60000 1000
          "concurrent (aggregate (concurrent (vectorSelector () [] 0 60000 1000)) Item_AVG True [''instance''])"]
  by (simp add: NewVectorSelector_def ex_known_def)

text \<open>
  C5, as the spec states it, fails: for \<^verbatim>\<open>sum without (job) (up)\<close> the expression groups
  by exclusion and the flag given to the aggregate is false.
\<close>

theorem newOperator_aggregate_without_counterexample:
  "newOperator ex_str ex_known (AggregateExpr Item_SUM (VectorSelector ''up'' []) None [''job''] True)
     () 0 60000 1000
   = Inr (concurrent (aggregate (concurrent (vectorSelector () [] 0 60000 1000)) Item_SUM False [''job'']))"
  by (simp add: NewAggregate_def NewVectorSelector_def ex_known_def)

text \<open>
  C7 at the input where the code departs from it: a call without arguments, such as
  \<^verbatim>\<open>time()\<close>, is none of the three supported shapes, and the builder panics on
  \<^verbatim>\<open>e.Args[0]\<close> instead of returning the unsupported-expression error.
\<close>

theorem newOperator_call_without_arguments:
  "newOperator str known (Call ''time'' []) storage mint maxt step
   = Inl (Panic ''index out of range [0] with length 0'')"
  by simp

text \<open>
  The other expressions of C7 do get the error: every expression that is not an
  aggregation, a vector selector or a call.
\<close>

lemma newOperator_unsupported_kind:
  assumes "\<forall>op e' param grouping without. e \<noteq> AggregateExpr op e' param grouping without"
      and "\<forall>name matchers. e \<noteq> VectorSelector name matchers"
      and "\<forall>f args. e \<noteq> Call f args"
  shows "newOperator str known e storage mint maxt step
         = Inl (Errorf (''unsupported expression '' @ str e))"
  using assms by (cases e) auto

text \<open>
  C9, as the code has it. A call whose first argument is a matrix selector over a vector
  selector, whatever arguments follow it, gives the matrix-selector operator with the
  selector's range and the vector selector's label matchers, inside the concurrency
  decorator; a call whose first argument is anything but a matrix selector gives the
  unsupported-expression error with the call's textual form.
\<close>

theorem newOperator_call:
  "newOperator str known (Call f (MatrixSelector (VectorSelector name matchers) rng # rest))
       storage mint maxt step
     = Inr (concurrent (matrixSelector storage matchers mint maxt step rng))
   \<and> ((\<forall>vs r. t \<noteq> MatrixSelector vs r) \<longrightarrow>
        newOperator str known (Call f (t # rest)) storage mint maxt step
          = Inl (Errorf (''unsupported expression '' @ str (Call f (t # rest)))))"
  by (cases t) (simp_all add: NewMatrixSelector_def)

theorem newOperator_call_witness:
  "newOperator ex_str ex_known
       (Call ''rate'' [MatrixSelector (VectorSelector ''up'' []) 300000000000]) () 0 60000 1000
     = Inr (concurrent (matrixSelector () [] 0 60000 1000 300000000000))
   \<and> newOperator ex_str ex_known (Call ''abs'' [NumberLiteral 1]) () 0 60000 1000
     = Inl (Errorf (''unsupported expression '' @ ex_str (Call ''abs'' [NumberLiteral 1])))"
  using newOperator_call [of ex_str ex_known "''rate''" "''up''" "[]" 300000000000
          "[]" "()" 0 60000 1000 "NumberLiteral 1"]
        newOperator_call [of ex_str ex_known "''abs''" "''up''" "[]" 300000000000
          "[]" "()" 0 60000 1000 "NumberLiteral 1"]
  by simp

text \<open>
  C9, as the spec states it, fails: \<^verbatim>\<open>predict_linear(up[5m], 3600)\<close> has two arguments,
  so the matrix selector is not its sole argument, and the builder still returns the
  matrix-selector operator and no error.
\<close>

theorem newOperator_call_two_arguments_counterexample:
  "newOperator ex_str ex_known
     (Call ''predict_linear'' [MatrixSelector (VectorSelector ''up'' []) 300000000000, NumberLiteral 3600])
     () 0 60000 1000
   = Inr (concurrent (matrixSelector () [] 0 60000 1000 300000000000))"
  by (simp add: NewMatrixSelector_def)


section \<open>The constructors: theorems\<close>

lemma Milliseconds_zero_iff: "Milliseconds d = 0 \<longleftrightarrow> \<bar>d\<bar> < 1000000"
  unfolding Milliseconds_def by (auto simp: sgn_if div_eq_0_iff)

text \<open>
  C10, as the code has it. For a name of the no-argument table the operator is made, its step
  interval is never 0, it is 1 whenever the step duration is shorter than a millisecond (the
  zero duration included), and it is the duration's whole milliseconds otherwise.
\<close>

theorem newNoArgsFunctionOperator_step:
  assumes "noArgFuncs (Func_Name fe) = Some c"
  shows "\<exists>op. (newNoArgsFunctionOperator noArgFuncs fe stepsBatch opts :: error + 'h Operator)
              = Inr (NoArgFunctionOperator op)
           \<and> na_step op \<noteq> 0
           \<and> na_step op = (if \<bar>Step opts\<bar> < 1000000 then 1 else Milliseconds (Step opts))
           \<and> (if Step opts = 0 then na_step op = 1 else True)"
  using assms
  by (auto simp: newNoArgsFunctionOperator_def Let_def Milliseconds_zero_iff)

theorem newNoArgsFunctionOperator_step_witness:
  "stepInterval (newNoArgsFunctionOperator ex_noArgFuncs
       \<lparr>Func_Name = ''time'', Args_Type = [], String = ''time()''\<rparr> 10
       \<lparr>Start = 0, End = 10000, Step = 5000000000\<rparr> :: error + unit Operator) = Some 5000"
  using newNoArgsFunctionOperator_step [of ex_noArgFuncs
          "\<lparr>Func_Name = ''time'', Args_Type = [], String = ''time()''\<rparr>"
          "\<lambda>t. Float (of_int t / 1000)" 10 "\<lparr>Start = 0, End = 10000, Step = 5000000000\<rparr>",
          where ?'h = unit]
  by (auto simp: stepInterval_def Milliseconds_def ex_noArgFuncs_def)

text \<open>
  C10, as stated, fails: a step duration of 500 microseconds is not zero, its count of
  milliseconds is 0, and the operator is made with the interval 1.
\<close>

theorem newNoArgsFunctionOperator_submillisecond_counterexample:
  "Step \<lparr>Start = 0, End = 10000, Step = 500000\<rparr> \<noteq> 0 \<and>
   Milliseconds (Step \<lparr>Start = 0, End = 10000, Step = 500000\<rparr>) = 0 \<and>
   stepInterval (newNoArgsFunctionOperator ex_noArgFuncs
       \<lparr>Func_Name = ''time'', Args_Type = [], String = ''time()''\<rparr> 10
       \<lparr>Start = 0, End = 10000, Step = 500000\<rparr> :: error + unit Operator) = Some 1"
  by (simp add: newNoArgsFunctionOperator_def stepInterval_def Milliseconds_def ex_noArgFuncs_def)


section \<open>The function operator: lemmas\<close>

text \<open>
  The two loops of a step are recursive equations on their own arguments; they are unfolded
  by hand, one round at a time.
\<close>

declare applySamples.simps [simp del] applyHistograms.simps [simp del]

lemma zip_Delete: "length xs = length ys \<Longrightarrow> zip (Delete xs i) (Delete ys i) = Delete (zip xs ys) i"
  by (simp add: Delete_def take_zip drop_zip)

lemma validSamples_Cons:
  "validSamples f args (p # xs) =
     (if snd (f (snd p) None args) then (fst p, fst (f (snd p) None args)) # validSamples f args xs
      else validSamples f args xs)"
  by (simp add: validSamples_def)

lemma applySamples_inv:
  "length (SampleIDs v) = length (Samples v) \<Longrightarrow> i \<le> length (Samples v) \<Longrightarrow>
   samples (applySamples f args i v) = take i (samples v) @ validSamples f args (drop i (samples v))
   \<and> length (SampleIDs (applySamples f args i v)) = length (Samples (applySamples f args i v))
   \<and> Histograms (applySamples f args i v) = Histograms v
   \<and> HistogramIDs (applySamples f args i v) = HistogramIDs v
   \<and> T (applySamples f args i v) = T v"
proof (induction f args i v rule: applySamples.induct)
  case (1 f args i v)
  show ?case
  proof (cases "i < length (Samples v)")
    case False
    then have eq: "applySamples f args i v = v"
      by (subst applySamples.simps) simp
    from False "1.prems" have "i = length (Samples v)" by simp
    then show ?thesis
      unfolding eq using "1.prems" by (simp add: samples_def validSamples_def)
  next
    case lt: True
    let ?r = "f (Samples v ! i) None args"
    have dr: "drop i (samples v) = (SampleIDs v ! i, Samples v ! i) # drop (Suc i) (samples v)"
      using lt "1.prems" by (simp add: samples_def Cons_nth_drop_Suc [symmetric])
    show ?thesis
    proof (cases "snd ?r")
      case True
      let ?v' = "v\<lparr>Samples := (Samples v)[i := fst ?r]\<rparr>"
      have eq: "applySamples f args i v = applySamples f args (Suc i) ?v'"
        using lt True by (subst applySamples.simps) (simp add: Let_def)
      have s': "samples ?v' = (samples v)[i := (SampleIDs v ! i, fst ?r)]"
        using lt "1.prems" by (simp add: samples_def zip_update [symmetric])
      have ih: "samples (applySamples f args (Suc i) ?v') = take (Suc i) (samples ?v') @ validSamples f args (drop (Suc i) (samples ?v'))
        \<and> length (SampleIDs (applySamples f args (Suc i) ?v')) = length (Samples (applySamples f args (Suc i) ?v'))
        \<and> Histograms (applySamples f args (Suc i) ?v') = Histograms ?v'
        \<and> HistogramIDs (applySamples f args (Suc i) ?v') = HistogramIDs ?v'
        \<and> T (applySamples f args (Suc i) ?v') = T ?v'"
        using "1.IH"(1) [OF lt refl True] lt "1.prems" by simp
      have li: "i < length (samples v)" using lt "1.prems" by (simp add: samples_def)
      have "take (Suc i) (samples ?v') = take i (samples v) @ [(SampleIDs v ! i, fst ?r)]"
        using li by (simp add: s' take_Suc_conv_app_nth)
      moreover have "drop (Suc i) (samples ?v') = drop (Suc i) (samples v)"
        by (simp add: s')
      ultimately show ?thesis
        using ih True by (simp add: eq dr validSamples_Cons)
    next
      case False
      let ?v' = "RemoveSample v i"
      have eq: "applySamples f args i v = applySamples f args i ?v'"
        using lt False by (subst applySamples.simps) (simp add: Let_def)
      have s': "samples ?v' = Delete (samples v) i"
        using "1.prems" by (simp add: samples_def RemoveSample_def zip_Delete)
      have pre: "length (SampleIDs ?v') = length (Samples ?v')" "i \<le> length (Samples ?v')"
        using lt "1.prems" by (auto simp: RemoveSample_def Delete_def)
      have ih: "samples (applySamples f args i ?v') = take i (samples ?v') @ validSamples f args (drop i (samples ?v'))
        \<and> length (SampleIDs (applySamples f args i ?v')) = length (Samples (applySamples f args i ?v'))
        \<and> Histograms (applySamples f args i ?v') = Histograms ?v'
        \<and> HistogramIDs (applySamples f args i ?v') = HistogramIDs ?v'
        \<and> T (applySamples f args i ?v') = T ?v'"
        using "1.IH"(2) [OF lt refl False pre] .
      have li: "i < length (samples v)" using lt "1.prems" by (simp add: samples_def)
      have "take i (samples ?v') = take i (samples v)"
        using li by (simp add: s' Delete_def)
      moreover have "drop i (samples ?v') = drop (Suc i) (samples v)"
        using li by (simp add: s' Delete_def)
      ultimately show ?thesis
        using ih False by (simp add: eq dr validSamples_Cons RemoveSample_def)
    qed
  qed
qed


lemma applyHistograms_inv:
  "length (HistogramIDs v) = length (Histograms v) \<Longrightarrow> length (SampleIDs v) = length (Samples v) \<Longrightarrow>
   \<exists>r. applyHistograms f args v = Inr r
     \<and> samples r = samples v @ validHistograms f args (histograms v)
     \<and> Histograms r = [] \<and> HistogramIDs r = []
     \<and> length (SampleIDs r) = length (Samples r) \<and> T r = T v"
proof (induction hs \<equiv> "Histograms v" arbitrary: v)
  case Nil
  then have "applyHistograms f args v = Inr v"
    by (subst applyHistograms.simps) simp
  with Nil show ?case
    by (simp add: histograms_def validHistograms_def)
next
  case (Cons h hs)
  from Cons.hyps(2) Cons.prems(1) obtain ident ids where ids: "HistogramIDs v = ident # ids"
    by (cases "HistogramIDs v") auto
  have hs: "Histograms v = h # hs" using Cons.hyps(2) by simp
  let ?r = "f (Float 0) (Some h) args"
  let ?removed = "RemoveHistogram v 0"
  let ?v' = "if snd ?r then AppendSample ?removed ident (fst ?r) else ?removed"
  have eq: "applyHistograms f args v = applyHistograms f args ?v'"
    by (subst applyHistograms.simps) (simp add: hs ids Let_def)
  have h': "Histograms ?v' = hs" "HistogramIDs ?v' = ids"
    by (simp_all add: RemoveHistogram_def AppendSample_def Delete_def hs ids)
  have l': "length (HistogramIDs ?v') = length (Histograms ?v')"
    using Cons.prems(1) by (simp add: h' hs ids)
  have s': "length (SampleIDs ?v') = length (Samples ?v')"
    using Cons.prems(2) by (simp add: RemoveHistogram_def AppendSample_def)
  have sam: "samples ?v' = samples v @ (if snd ?r then [(ident, fst ?r)] else [])"
    using Cons.prems(2) by (simp add: samples_def RemoveHistogram_def AppendSample_def)
  have his: "histograms v = (ident, h) # histograms ?v'"
    by (simp add: histograms_def h' hs ids)
  have t': "T ?v' = T v"
    by (simp add: RemoveHistogram_def AppendSample_def)
  from Cons.hyps(1) [OF h'(1) [symmetric] l' s'] obtain r where
    r: "applyHistograms f args ?v' = Inr r"
       "samples r = samples ?v' @ validHistograms f args (histograms ?v')"
       "Histograms r = []" "HistogramIDs r = []"
       "length (SampleIDs r) = length (Samples r)" "T r = T ?v'"
    by blast
  have "samples r = samples v @ validHistograms f args (histograms v)"
    unfolding r(2) sam his by (simp add: validHistograms_def)
  with r eq t' show ?case by simp
qed

lemma wellFormed_empty:
  "wellFormed v \<Longrightarrow> Samples v = [] \<Longrightarrow> Histograms v = [] \<Longrightarrow> samples v = [] \<and> histograms v = [] \<and> HistogramIDs v = []"
  by (simp add: wellFormed_def samples_def histograms_def)

lemma applyStep_inv:
  assumes "wellFormed v" and "applyStep opr b v = Inr r"
  shows "samples r = validSamples (call opr) (scalarPoints opr ! b) (samples v)
                      @ validHistograms (call opr) (scalarPoints opr ! b) (histograms v)
         \<and> Histograms r = [] \<and> HistogramIDs r = [] \<and> wellFormed r \<and> T r = T v"
proof (cases "Samples v = [] \<and> Histograms v = []")
  case True
  with assms(2) have "r = v" by (simp add: applyStep_def)
  with True assms(1) wellFormed_empty [of v] show ?thesis
    by (simp add: validSamples_def validHistograms_def)
next
  case False
  let ?args = "scalarPoints opr ! b"
  let ?w = "applySamples (call opr) ?args 0 v"
  from False assms(2) have r: "applyHistograms (call opr) ?args ?w = Inr r"
    by (simp add: applyStep_def split: if_splits)
  have w: "samples ?w = validSamples (call opr) ?args (samples v)"
     "length (SampleIDs ?w) = length (Samples ?w)"
     "Histograms ?w = Histograms v" "HistogramIDs ?w = HistogramIDs v" "T ?w = T v"
    using applySamples_inv [of v 0 "call opr" ?args] assms(1)
    by (simp_all add: wellFormed_def)
  have hw: "histograms ?w = histograms v"
    by (simp add: histograms_def w)
  have "length (HistogramIDs ?w) = length (Histograms ?w)"
    using assms(1) by (simp add: w wellFormed_def)
  from applyHistograms_inv [OF this w(2), of "call opr" ?args] r
  show ?thesis
    by (simp add: w hw wellFormed_def)
qed

lemma applyStep_total:
  assumes "wellFormed v" and "b < length (scalarPoints opr)"
  shows "\<exists>r. applyStep opr b v = Inr r"
proof -
  let ?args = "scalarPoints opr ! b"
  let ?w = "applySamples (call opr) ?args 0 v"
  have w: "length (SampleIDs ?w) = length (Samples ?w)"
     "Histograms ?w = Histograms v" "HistogramIDs ?w = HistogramIDs v"
    using applySamples_inv [of v 0 "call opr" ?args] assms(1)
    by (simp_all add: wellFormed_def)
  have "length (HistogramIDs ?w) = length (Histograms ?w)"
    using assms(1) by (simp add: w wellFormed_def)
  from applyHistograms_inv [OF this w(1), of "call opr" ?args] assms(2)
  show ?thesis
    by (auto simp: applyStep_def)
qed

lemma applyBatch_inv:
  "\<forall>v\<in>set vs. wellFormed v \<Longrightarrow> applyBatch opr b vs = Inr out \<Longrightarrow>
   length out = length vs \<and>
   (\<forall>j<length vs.
      samples (out ! j) = validSamples (call opr) (scalarPoints opr ! (b + j)) (samples (vs ! j))
                          @ validHistograms (call opr) (scalarPoints opr ! (b + j)) (histograms (vs ! j))
      \<and> Histograms (out ! j) = [] \<and> HistogramIDs (out ! j) = []
      \<and> wellFormed (out ! j) \<and> T (out ! j) = T (vs ! j))"
proof (induction vs arbitrary: b out)
  case Nil
  then show ?case by simp
next
  case (Cons v vs)
  from Cons.prems(2) obtain r rest where
    r: "applyStep opr b v = Inr r" and rest: "applyBatch opr (Suc b) vs = Inr rest"
    and out: "out = r # rest"
    by (auto split: sum.splits)
  have wf: "wellFormed v" "\<forall>v\<in>set vs. wellFormed v" using Cons.prems(1) by simp_all
  note st = applyStep_inv [OF wf(1) r]
  note ih = Cons.IH [OF wf(2) rest]
  have len: "length out = length (v # vs)" using ih out by simp
  have each: "samples (out ! j) = validSamples (call opr) (scalarPoints opr ! (b + j)) (samples ((v # vs) ! j))
                          @ validHistograms (call opr) (scalarPoints opr ! (b + j)) (histograms ((v # vs) ! j))
      \<and> Histograms (out ! j) = [] \<and> HistogramIDs (out ! j) = []
      \<and> wellFormed (out ! j) \<and> T (out ! j) = T ((v # vs) ! j)"
    if "j < length (v # vs)" for j
    using that st ih out by (cases j) simp_all
  from len each show ?case by blast
qed



lemma pullScalars_frame:
  "pullScalars n is k opr = (r, opr') \<Longrightarrow>
   vectorIndex opr' = vectorIndex opr \<and> call opr' = call opr \<and> series opr' = series opr
   \<and> once opr' = once opr \<and> funcExpr opr' = funcExpr opr
   \<and> length (nextOps opr') = length (nextOps opr)"
proof (induction "is" arbitrary: k opr)
  case Nil
  then show ?case by simp
next
  case (Cons i rest)
  show ?case
  proof (cases "i = vectorIndex opr")
    case True
    with Cons.prems Cons.IH [of k opr] show ?thesis by simp
  next
    case False
    obtain cr c where cn: "child_Next (nextOps opr ! i) = (cr, c)" by (cases "child_Next (nextOps opr ! i)")
    show ?thesis
    proof (cases cr)
      case (Inl err)
      with Cons.prems False cn show ?thesis by auto
    next
      case (Inr svs)
      show ?thesis
      proof (cases "fillScalarPoints svs k [0..<n] (scalarPoints opr)")
        case (Inl p)
        with Cons.prems False cn Inr show ?thesis by auto
      next
        case pts: (Inr pts)
        let ?opr1 = "opr\<lparr>nextOps := (nextOps opr)[i := c], scalarPoints := pts\<rparr>"
        from Cons.prems False cn Inr pts have "pullScalars n rest (Suc k) ?opr1 = (r, opr')"
          by simp
        from Cons.IH [OF this] show ?thesis by simp
      qed
    qed
  qed
qed


lemma pullScalars_Cons_cases:
  assumes "pullScalars n (i # rest) k opr = (r, opr')"
  shows "(i = vectorIndex opr \<and> pullScalars n rest k opr = (r, opr'))
   \<or> (i \<noteq> vectorIndex opr \<and> r \<noteq> None \<and>
        (\<exists>c. opr' = opr\<lparr>nextOps := (nextOps opr)[i := c]\<rparr>))
   \<or> (i \<noteq> vectorIndex opr \<and>
        (\<exists>svs c pts. child_Next (nextOps opr ! i) = (Inr svs, c)
           \<and> fillScalarPoints svs k [0..<n] (scalarPoints opr) = Inr pts
           \<and> pullScalars n rest (Suc k) (opr\<lparr>nextOps := (nextOps opr)[i := c], scalarPoints := pts\<rparr>)
               = (r, opr')))"
  using assms by (auto split: if_splits prod.splits sum.splits)

lemma pullScalars_untouched:
  "pullScalars n is k opr = (r, opr') \<Longrightarrow> i \<notin> set is \<or> i = vectorIndex opr \<Longrightarrow>
   nextOps opr' ! i = nextOps opr ! i"
proof (induction "is" arbitrary: k opr)
  case Nil
  then show ?case by simp
next
  case (Cons i0 rest)
  from pullScalars_Cons_cases [OF Cons.prems(1)] show ?case
  proof (elim disjE conjE exE)
    assume "i0 = vectorIndex opr" "pullScalars n rest k opr = (r, opr')"
    with Cons.IH [of k opr] Cons.prems(2) show ?thesis by auto
  next
    fix c assume "i0 \<noteq> vectorIndex opr" "opr' = opr\<lparr>nextOps := (nextOps opr)[i0 := c]\<rparr>"
    with Cons.prems(2) show ?thesis by auto
  next
    fix svs c pts
    assume ne: "i0 \<noteq> vectorIndex opr"
      and rec: "pullScalars n rest (Suc k) (opr\<lparr>nextOps := (nextOps opr)[i0 := c], scalarPoints := pts\<rparr>) = (r, opr')"
    from Cons.prems(2) ne have "i \<noteq> i0" by auto
    with Cons.IH [OF rec] Cons.prems(2) show ?thesis by auto
  qed
qed




lemma filter_upt_neq:
  "vi < L \<Longrightarrow> filter (\<lambda>i. i \<noteq> vi) [0..<L] = [0..<vi] @ [Suc vi..<L]"
proof -
  assume "vi < L"
  then have "[0..<L] = [0..<vi] @ [vi..<L]"
    using upt_add_eq_append [of 0 vi "L - vi"] by simp
  moreover have "[vi..<L] = vi # [Suc vi..<L]"
    using \<open>vi < L\<close> by (simp add: upt_conv_Cons)
  ultimately show ?thesis by (simp add: filter_id_conv)
qed



lemma child_Next_series:
  "seriesCalls (snd (child_Next c)) = seriesCalls c \<and> seriesResult (snd (child_Next c)) = seriesResult c"
  by (simp add: child_Next_def split: list.splits)

lemma child_Next_cong: "nextResults c = nextResults c' \<Longrightarrow> fst (child_Next c) = fst (child_Next c')"
  by (simp add: child_Next_def split: list.splits)

lemma loadSeries_frame:
  assumes "loadSeries opr = (r, opr1)"
  shows "vectorIndex opr1 = vectorIndex opr" "call opr1 = call opr" "funcExpr opr1 = funcExpr opr"
    "scalarPoints opr1 = scalarPoints opr" "length (nextOps opr1) = length (nextOps opr)"
    "once opr1"
    "i \<noteq> vectorIndex opr \<Longrightarrow> nextOps opr1 ! i = nextOps opr ! i"
    "nextResults (nextOps opr1 ! i) = nextResults (nextOps opr ! i)"
    "nextCalls (nextOps opr1 ! i) = nextCalls (nextOps opr ! i)"
  using assms
  by (auto simp: loadSeries_def child_Series_def nth_list_update split: if_splits sum.splits)

lemma Next_Inr:
  assumes "Next ctx opr = (Inr out, opr')"
  shows "\<exists>opr1 vectors c. ctx = None \<and> loadSeries opr = (None, opr1)
     \<and> vectorIndex opr1 < length (nextOps opr1)
     \<and> child_Next (nextOps opr1 ! vectorIndex opr1) = (Inr vectors, c)
     \<and> (if vectors = [] then out = [] \<and> opr' = opr1\<lparr>nextOps := (nextOps opr1)[vectorIndex opr1 := c]\<rparr>
         else pullScalars (length vectors) [0..<length (nextOps opr1)] 0
                (opr1\<lparr>nextOps := (nextOps opr1)[vectorIndex opr1 := c]\<rparr>) = (None, opr')
              \<and> applyBatch opr' 0 vectors = Inr out)"
  using assms
  by (auto simp: Next_def Let_def split: option.splits prod.splits sum.splits if_splits)

lemma Next_result:
  assumes "Next ctx opr = (Inr out, opr')"
      and "fst (child_Next (nextOps opr ! vectorIndex opr)) = Inr vectors"
  shows "applyBatch opr' 0 vectors = Inr out" "call opr' = call opr"
    "vectorIndex opr' = vectorIndex opr" "vectorIndex opr < length (nextOps opr)"
    "length (nextOps opr') = length (nextOps opr)"
    "nextOps opr' ! vectorIndex opr = snd (child_Next (nextOps (snd (loadSeries opr)) ! vectorIndex opr))"
proof -
  from Next_Inr [OF assms(1)] obtain opr1 vectors' c where
    ld: "loadSeries opr = (None, opr1)" and vi: "vectorIndex opr1 < length (nextOps opr1)"
    and cn: "child_Next (nextOps opr1 ! vectorIndex opr1) = (Inr vectors', c)"
    and rest: "if vectors' = [] then out = [] \<and> opr' = opr1\<lparr>nextOps := (nextOps opr1)[vectorIndex opr1 := c]\<rparr>
         else pullScalars (length vectors') [0..<length (nextOps opr1)] 0
                (opr1\<lparr>nextOps := (nextOps opr1)[vectorIndex opr1 := c]\<rparr>) = (None, opr')
              \<and> applyBatch opr' 0 vectors' = Inr out"
    by blast
  note fr = loadSeries_frame [OF ld]
  have "fst (child_Next (nextOps opr1 ! vectorIndex opr1)) = fst (child_Next (nextOps opr ! vectorIndex opr))"
    by (rule child_Next_cong) (simp add: fr)
  with cn assms(2) have v: "vectors' = vectors" by simp
  let ?opr2 = "opr1\<lparr>nextOps := (nextOps opr1)[vectorIndex opr1 := c]\<rparr>"
  show "vectorIndex opr < length (nextOps opr)" using vi fr by simp
  show "applyBatch opr' 0 vectors = Inr out"
    using rest v by (auto split: if_splits)
  show "call opr' = call opr"
    using rest fr pullScalars_frame [of "length vectors'" "[0..<length (nextOps opr1)]" 0 ?opr2 None opr']
    by (auto split: if_splits)
  show "vectorIndex opr' = vectorIndex opr"
    using rest fr pullScalars_frame [of "length vectors'" "[0..<length (nextOps opr1)]" 0 ?opr2 None opr']
    by (auto split: if_splits)
  show "length (nextOps opr') = length (nextOps opr)"
    using rest fr pullScalars_frame [of "length vectors'" "[0..<length (nextOps opr1)]" 0 ?opr2 None opr']
    by (auto split: if_splits)
  have "nextOps opr' ! vectorIndex opr1 = c"
  proof (cases "vectors' = []")
    case True
    with rest vi show ?thesis by simp
  next
    case False
    with rest have "pullScalars (length vectors') [0..<length (nextOps opr1)] 0 ?opr2 = (None, opr')"
      by simp
    from pullScalars_untouched [OF this, of "vectorIndex opr1"] vi show ?thesis by simp
  qed
  with cn ld fr show "nextOps opr' ! vectorIndex opr = snd (child_Next (nextOps (snd (loadSeries opr)) ! vectorIndex opr))"
    by simp
qed


lemma Next_step:
  assumes "fst (Next ctx opr) = Inr out"
      and "fst (child_Next (nextOps opr ! vectorIndex opr)) = Inr vectors"
      and "\<forall>v\<in>set vectors. wellFormed v"
      and "b < length vectors"
  shows "length out = length vectors"
    "samples (out ! b)
       = validSamples (call opr) (scalarPoints (snd (Next ctx opr)) ! b) (samples (vectors ! b))
         @ validHistograms (call opr) (scalarPoints (snd (Next ctx opr)) ! b) (histograms (vectors ! b))"
    "Histograms (out ! b) = []" "HistogramIDs (out ! b) = []" "wellFormed (out ! b)"
    "T (out ! b) = T (vectors ! b)"
proof -
  from assms(1) have nx: "Next ctx opr = (Inr out, snd (Next ctx opr))"
    by (metis prod.collapse)
  note r = Next_result [OF nx assms(2)]
  from applyBatch_inv [OF assms(3) r(1)] assms(4) r(2)
  show "length out = length vectors"
    "samples (out ! b)
       = validSamples (call opr) (scalarPoints (snd (Next ctx opr)) ! b) (samples (vectors ! b))
         @ validHistograms (call opr) (scalarPoints (snd (Next ctx opr)) ! b) (histograms (vectors ! b))"
    "Histograms (out ! b) = []" "HistogramIDs (out ! b) = []" "wellFormed (out ! b)"
    "T (out ! b) = T (vectors ! b)"
    by simp_all
qed


lemma fillScalarPoints_length:
  "fillScalarPoints svs k bs pts = Inr pts' \<Longrightarrow>
   length pts' = length pts \<and> (\<forall>b<length pts. length (pts' ! b) = length (pts ! b))"
proof (induction bs arbitrary: pts)
  case Nil
  then show ?case by simp
next
  case (Cons b0 rest)
  let ?v = "if svs \<noteq> [] \<and> Samples (svs ! b0) \<noteq> [] then hd (Samples (svs ! b0)) else NaN"
  let ?pts1 = "pts[b0 := (pts ! b0)[k := ?v]]"
  from Cons.prems have ok: "b0 < length pts"
    and rec: "fillScalarPoints svs k rest ?pts1 = Inr pts'"
    by (auto simp: Let_def split: if_splits)
  from Cons.IH [OF rec] have "length pts' = length pts"
    "\<forall>b<length pts. length (pts' ! b) = length (?pts1 ! b)" by simp_all
  moreover have "length (?pts1 ! b) = length (pts ! b)" if "b < length pts" for b
    using that by (cases "b = b0") simp_all
  ultimately show ?case by simp
qed

lemma fillScalarPoints_total:
  assumes "svs = [] \<or> n \<le> length svs" and "n \<le> length pts"
      and "\<forall>b<n. k < length (pts ! b)"
  shows "set bs \<subseteq> {0..<n} \<Longrightarrow> \<exists>pts'. fillScalarPoints svs k bs pts = Inr pts'"
  using assms(2,3)
proof (induction bs arbitrary: pts)
  case Nil
  then show ?case by simp
next
  case (Cons b0 rest)
  let ?v = "if svs \<noteq> [] \<and> Samples (svs ! b0) \<noteq> [] then hd (Samples (svs ! b0)) else NaN"
  let ?pts1 = "pts[b0 := (pts ! b0)[k := ?v]]"
  from Cons.prems(1) have b0: "b0 < n" and rest: "set rest \<subseteq> {0..<n}" by simp_all
  have l1: "n \<le> length ?pts1" using Cons.prems(2) by simp
  have r1: "\<forall>b<n. k < length (?pts1 ! b)"
  proof (intro allI impI)
    fix b assume "b < n"
    with Cons.prems(2,3) show "k < length (?pts1 ! b)"
      by (cases "b = b0") simp_all
  qed
  from Cons.IH [OF rest l1 r1] obtain pts' where "fillScalarPoints svs k rest ?pts1 = Inr pts'"
    by blast
  with b0 assms(1) Cons.prems(2,3) show ?case
    by (auto simp: Let_def)
qed

lemma pullScalars_points_length:
  "pullScalars n is k opr = (None, opr') \<Longrightarrow>
   length (scalarPoints opr') = length (scalarPoints opr)"
proof (induction "is" arbitrary: k opr)
  case Nil
  then show ?case by simp
next
  case (Cons i0 rest)
  from pullScalars_Cons_cases [OF Cons.prems(1)] show ?case
  proof (elim disjE conjE exE)
    assume "i0 = vectorIndex opr" "pullScalars n rest k opr = (None, opr')"
    with Cons.IH [of k opr] show ?thesis by simp
  next
    assume "None \<noteq> (None :: error option)"
    then show ?thesis by simp
  next
    fix svs c pts
    assume "child_Next (nextOps opr ! i0) = (Inr svs, c)"
      and fill: "fillScalarPoints svs k [0..<n] (scalarPoints opr) = Inr pts"
      and rec: "pullScalars n rest (Suc k) (opr\<lparr>nextOps := (nextOps opr)[i0 := c], scalarPoints := pts\<rparr>)
                = (None, opr')"
    from Cons.IH [OF rec] fillScalarPoints_length [OF fill] show ?thesis by simp
  qed
qed

lemma pullScalars_total:
  "distinct is \<Longrightarrow>
   \<forall>i\<in>set is. i \<noteq> vectorIndex opr \<longrightarrow>
     (\<exists>svs. fst (child_Next (nextOps opr ! i)) = Inr svs \<and> (svs = [] \<or> n \<le> length svs)) \<Longrightarrow>
   n \<le> length (scalarPoints opr) \<Longrightarrow>
   \<forall>b<n. k + length (filter (\<lambda>i. i \<noteq> vectorIndex opr) is) \<le> length (scalarPoints opr ! b) \<Longrightarrow>
   \<exists>opr'. pullScalars n is k opr = (None, opr')"
proof (induction "is" arbitrary: k opr)
  case Nil
  then show ?case by simp
next
  case (Cons i0 rest)
  from Cons.prems(1) have d: "distinct rest" "i0 \<notin> set rest" by simp_all
  show ?case
  proof (cases "i0 = vectorIndex opr")
    case True
    with Cons.prems have "\<exists>opr'. pullScalars n rest k opr = (None, opr')"
      by (intro Cons.IH d) simp_all
    with True show ?thesis by simp
  next
    case False
    with Cons.prems(2) obtain svs where
      svs: "fst (child_Next (nextOps opr ! i0)) = Inr svs" "svs = [] \<or> n \<le> length svs"
      by auto
    then obtain c where cn: "child_Next (nextOps opr ! i0) = (Inr svs, c)"
      by (cases "child_Next (nextOps opr ! i0)") simp
    have k: "\<forall>b<n. k < length (scalarPoints opr ! b)"
      using Cons.prems(4) False by auto
    from fillScalarPoints_total [OF svs(2) Cons.prems(3) k, of "[0..<n]"]
    obtain pts where fill: "fillScalarPoints svs k [0..<n] (scalarPoints opr) = Inr pts"
      by auto
    note len = fillScalarPoints_length [OF fill]
    let ?opr1 = "opr\<lparr>nextOps := (nextOps opr)[i0 := c], scalarPoints := pts\<rparr>"
    have p2: "\<forall>i\<in>set rest. i \<noteq> vectorIndex ?opr1 \<longrightarrow>
      (\<exists>svs. fst (child_Next (nextOps ?opr1 ! i)) = Inr svs \<and> (svs = [] \<or> n \<le> length svs))"
    proof (intro ballI impI)
      fix i assume i: "i \<in> set rest" "i \<noteq> vectorIndex ?opr1"
      with d(2) have "i0 \<noteq> i" by auto
      with i Cons.prems(2)
      show "\<exists>svs. fst (child_Next (nextOps ?opr1 ! i)) = Inr svs \<and> (svs = [] \<or> n \<le> length svs)"
        by simp
    qed
    have p3: "n \<le> length (scalarPoints ?opr1)" using len Cons.prems(3) by simp
    have p4: "\<forall>b<n. Suc k + length (filter (\<lambda>i. i \<noteq> vectorIndex ?opr1) rest)
                  \<le> length (scalarPoints ?opr1 ! b)"
      using len Cons.prems(3,4) False by auto
    from Cons.IH [OF d(1) p2 p3 p4] obtain opr' where
      "pullScalars n rest (Suc k) ?opr1 = (None, opr')" by blast
    with False cn fill show ?thesis by simp
  qed
qed

lemma applyBatch_total:
  "\<forall>v\<in>set vs. wellFormed v \<Longrightarrow> b + length vs \<le> length (scalarPoints opr) \<Longrightarrow>
   \<exists>out. applyBatch opr b vs = Inr out"
proof (induction vs arbitrary: b)
  case Nil
  then show ?case by simp
next
  case (Cons v vs)
  from Cons.prems have "wellFormed v" "b < length (scalarPoints opr)" by simp_all
  from applyStep_total [OF this] obtain r where r: "applyStep opr b v = Inr r" by blast
  from Cons.prems have "\<exists>out. applyBatch opr (Suc b) vs = Inr out"
    by (intro Cons.IH) simp_all
  with r show ?case by auto
qed

lemma length_filter_upt_neq:
  "vi < L \<Longrightarrow> length (filter (\<lambda>i. i \<noteq> vi) [0..<L]) = L - 1"
  by (simp add: filter_upt_neq)

lemma Next_returns:
  assumes "ready opr vectors"
      and "fst (child_Next (nextOps opr ! vectorIndex opr)) = Inr vectors"
      and "\<forall>v\<in>set vectors. wellFormed v"
  shows "\<exists>out. fst (Next None opr) = Inr out"
proof -
  from assms(1) have ld0: "fst (loadSeries opr) = None" and vi: "vectorIndex opr < length (nextOps opr)"
    and rows: "length vectors \<le> length (scalarPoints opr)"
    and cols: "\<forall>row\<in>set (scalarPoints opr). length (nextOps opr) - 1 \<le> length row"
    by (simp_all add: ready_def list_all_iff)
  have ch: "\<forall>i<length (nextOps opr). i \<noteq> vectorIndex opr \<longrightarrow>
        (\<exists>svs. fst (child_Next (nextOps opr ! i)) = Inr svs \<and> (svs = [] \<or> length vectors \<le> length svs))"
  proof (intro allI impI)
    fix i assume "i < length (nextOps opr)" "i \<noteq> vectorIndex opr"
    with assms(1) have "case fst (child_Next (nextOps opr ! i)) of
        Inl err \<Rightarrow> False | Inr svs \<Rightarrow> svs = [] \<or> length vectors \<le> length svs"
      by (auto simp: ready_def list_all_iff)
    then show "\<exists>svs. fst (child_Next (nextOps opr ! i)) = Inr svs \<and> (svs = [] \<or> length vectors \<le> length svs)"
      by (cases "fst (child_Next (nextOps opr ! i))") simp_all
  qed
  obtain opr1 where ld: "loadSeries opr = (None, opr1)"
    using ld0 by (cases "loadSeries opr") simp
  note fr = loadSeries_frame [OF ld]
  have same: "fst (child_Next (nextOps opr1 ! i)) = fst (child_Next (nextOps opr ! i))" for i
    by (rule child_Next_cong) (simp add: fr)
  have "fst (child_Next (nextOps opr1 ! vectorIndex opr1)) = Inr vectors"
    using same [of "vectorIndex opr"] assms(2) fr(1) by simp
  then obtain c where cn: "child_Next (nextOps opr1 ! vectorIndex opr1) = (Inr vectors, c)"
    by (cases "child_Next (nextOps opr1 ! vectorIndex opr1)") simp
  let ?opr2 = "opr1\<lparr>nextOps := (nextOps opr1)[vectorIndex opr1 := c]\<rparr>"
  let ?L = "length (nextOps opr)"
  show ?thesis
  proof (cases "vectors = []")
    case True
    with ld cn vi fr show ?thesis by (simp add: Next_def)
  next
    case False
    have p2: "\<forall>i\<in>set [0..<?L]. i \<noteq> vectorIndex ?opr2 \<longrightarrow>
      (\<exists>svs. fst (child_Next (nextOps ?opr2 ! i)) = Inr svs \<and> (svs = [] \<or> length vectors \<le> length svs))"
      using ch same fr by simp
    have p3: "length vectors \<le> length (scalarPoints ?opr2)" using rows fr by simp
    have p4: "\<forall>b<length vectors. 0 + length (filter (\<lambda>i. i \<noteq> vectorIndex ?opr2) [0..<?L])
                \<le> length (scalarPoints ?opr2 ! b)"
      using rows cols vi fr by (simp add: length_filter_upt_neq)
    from pullScalars_total [OF _ p2 p3 p4] obtain opr3 where
      pl: "pullScalars (length vectors) [0..<?L] 0 ?opr2 = (None, opr3)" by auto
    from pullScalars_points_length [OF pl] rows fr
    have "0 + length vectors \<le> length (scalarPoints opr3)" by simp
    from applyBatch_total [OF assms(3) this] obtain out where "applyBatch opr3 0 vectors = Inr out"
      by blast
    with ld cn vi fr False pl show ?thesis by (simp add: Next_def)
  qed
qed









section \<open>The function operator: theorems\<close>

text \<open>
  C1, as the code has it. For a well-formed batch of the vector child, \<^verbatim>\<open>Next\<close> returns
  a batch when the operator is ready for it, and whenever \<^verbatim>\<open>Next\<close> returns a batch, it
  has as many steps as the vector child's batch, and the scalar samples of every step are,
  in order: for each input scalar sample whose call is valid, the sample's ID with the
  value the call returned, and after them, for each input histogram sample whose call is
  valid, the histogram's ID with the number returned. No other sample is emitted, so a sample
  with an invalid result is never in the output, and the number of emitted scalar samples is
  the number of input scalar samples with a valid result plus the number of input histogram
  samples with a valid result. The call gets the step's row of scalar points.
\<close>

theorem Next_samples:
  assumes "fst (child_Next (nextOps opr ! vectorIndex opr)) = Inr vectors"
      and "\<forall>v\<in>set vectors. wellFormed v"
  shows "(ready opr vectors \<longrightarrow> (\<exists>out. fst (Next None opr) = Inr out))
    \<and> (\<forall>out b. fst (Next ctx opr) = Inr out \<and> b < length vectors \<longrightarrow>
          length out = length vectors
          \<and> samples (out ! b)
             = validSamples (call opr) (scalarPoints (snd (Next ctx opr)) ! b) (samples (vectors ! b))
               @ validHistograms (call opr) (scalarPoints (snd (Next ctx opr)) ! b) (histograms (vectors ! b))
          \<and> length (Samples (out ! b))
             = length (filter (\<lambda>p. snd (call opr (snd p) None (scalarPoints (snd (Next ctx opr)) ! b)))
                         (samples (vectors ! b)))
               + length (filter (\<lambda>p. snd (call opr (Float 0) (Some (snd p)) (scalarPoints (snd (Next ctx opr)) ! b)))
                         (histograms (vectors ! b))))"
proof (intro conjI impI allI)
  assume "ready opr vectors"
  then show "\<exists>out. fst (Next None opr) = Inr out"
    using assms by (rule Next_returns)
next
  fix out b
  assume a: "fst (Next ctx opr) = Inr out \<and> b < length vectors"
  then have nx: "fst (Next ctx opr) = Inr out" and b: "b < length vectors" by simp_all
  note st = Next_step [OF nx assms b]
  show "length out = length vectors" by (rule st(1))
  show "samples (out ! b)
             = validSamples (call opr) (scalarPoints (snd (Next ctx opr)) ! b) (samples (vectors ! b))
               @ validHistograms (call opr) (scalarPoints (snd (Next ctx opr)) ! b) (histograms (vectors ! b))"
    by (rule st(2))
  have "length (Samples (out ! b)) = length (samples (out ! b))"
    using st(5) by (simp add: samples_def wellFormed_def)
  then show "length (Samples (out ! b))
             = length (filter (\<lambda>p. snd (call opr (snd p) None (scalarPoints (snd (Next ctx opr)) ! b)))
                         (samples (vectors ! b)))
               + length (filter (\<lambda>p. snd (call opr (Float 0) (Some (snd p)) (scalarPoints (snd (Next ctx opr)) ! b)))
                         (histograms (vectors ! b)))"
    by (simp add: st(2) validSamples_def validHistograms_def)
qed

theorem Next_samples_witness:
  "ready ex_operator [ex_vector]
   \<and> fst (Next None ex_operator)
     = Inr [\<lparr>T = 1000, SampleIDs = [0, 2, 5], Samples = [Float 11, Float 13, Float 9],
              HistogramIDs = [], Histograms = []\<rparr>]
   \<and> samples \<lparr>T = 1000, SampleIDs = [0, 2, 5], Samples = [Float 11, Float 13, Float 9],
              HistogramIDs = [], Histograms = ([] :: bool list)\<rparr>
     = validSamples ex_call [Float 10, NaN] (samples ex_vector)
       @ validHistograms ex_call [Float 10, NaN] (histograms ex_vector)
   \<and> validSamples ex_call [Float 10, NaN] (samples ex_vector) = [(0, Float 11), (2, Float 13)]
   \<and> validHistograms ex_call [Float 10, NaN] (histograms ex_vector) = [(5, Float 9)]"
proof -
  have h1: "fst (Next None ex_operator)
     = Inr [\<lparr>T = 1000, SampleIDs = [0, 2, 5], Samples = [Float 11, Float 13, Float 9],
              HistogramIDs = [], Histograms = []\<rparr>]"
    by code_simp
  have h2: "fst (child_Next (nextOps ex_operator ! vectorIndex ex_operator)) = Inr [ex_vector]"
    by code_simp
  have h3: "\<forall>v\<in>set [ex_vector]. wellFormed v"
    by (simp add: wellFormed_def ex_vector_def)
  have r: "ready ex_operator [ex_vector]" by code_simp
  have pts: "scalarPoints (snd (Next None ex_operator)) = [[Float 10, NaN]]" by code_simp
  have c: "call ex_operator = ex_call" by (simp add: ex_operator_def)
  have v1: "validSamples ex_call [Float 10, NaN] (samples ex_vector) = [(0, Float 11), (2, Float 13)]"
    by code_simp
  have v2: "validHistograms ex_call [Float 10, NaN] (histograms ex_vector) = [(5, Float 9)]"
    by code_simp
  from Next_samples [OF h2 h3, of None] h1
  have "samples (hd [\<lparr>T = 1000, SampleIDs = [0, 2, 5], Samples = [Float 11, Float 13, Float 9],
              HistogramIDs = [], Histograms = ([] :: bool list)\<rparr>])
     = validSamples ex_call [Float 10, NaN] (samples ex_vector)
       @ validHistograms ex_call [Float 10, NaN] (histograms ex_vector)"
    by (auto simp: pts c)
  with r h1 v1 v2 show ?thesis by simp
qed

text \<open>
  C1, as stated, fails on the count: the step has two scalar samples with a valid result
  (IDs 0 and 2) and \<^verbatim>\<open>Next\<close> emits three scalar samples, the third one made from the
  histogram sample 5.
\<close>

theorem Next_samples_count_counterexample:
  "fst (Next None ex_operator)
     = Inr [\<lparr>T = 1000, SampleIDs = [0, 2, 5], Samples = [Float 11, Float 13, Float 9],
              HistogramIDs = [], Histograms = []\<rparr>]
   \<and> scalarPoints (snd (Next None ex_operator)) = [[Float 10, NaN]]
   \<and> fst (child_Next (nextOps ex_operator ! vectorIndex ex_operator)) = Inr [ex_vector]
   \<and> validSamples ex_call [Float 10, NaN] (samples ex_vector) = [(0, Float 11), (2, Float 13)]"
  by code_simp

text \<open>
  C3. For a well-formed batch of the vector child, \<^verbatim>\<open>Next\<close> returns a batch when the
  operator is ready for it, and whenever \<^verbatim>\<open>Next\<close> returns a batch, no step of it holds
  a histogram sample or a histogram ID, and the scalar samples that follow
  the results of the input scalar samples are exactly, in order, one sample for each input
  histogram sample whose call is valid, with the ID of that histogram and the number the
  call returned.
\<close>

theorem Next_histograms:
  assumes "fst (child_Next (nextOps opr ! vectorIndex opr)) = Inr vectors"
      and "\<forall>v\<in>set vectors. wellFormed v"
  shows "(ready opr vectors \<longrightarrow> (\<exists>out. fst (Next None opr) = Inr out))
    \<and> (\<forall>out b. fst (Next ctx opr) = Inr out \<and> b < length vectors \<longrightarrow>
          Histograms (out ! b) = [] \<and> HistogramIDs (out ! b) = []
          \<and> drop (length (validSamples (call opr) (scalarPoints (snd (Next ctx opr)) ! b)
                             (samples (vectors ! b))))
               (samples (out ! b))
             = map (\<lambda>p. (fst p, fst (call opr (Float 0) (Some (snd p)) (scalarPoints (snd (Next ctx opr)) ! b))))
                 (filter (\<lambda>p. snd (call opr (Float 0) (Some (snd p)) (scalarPoints (snd (Next ctx opr)) ! b)))
                    (histograms (vectors ! b))))"
proof (intro conjI impI allI)
  assume "ready opr vectors"
  then show "\<exists>out. fst (Next None opr) = Inr out"
    using assms by (rule Next_returns)
next
  fix out b
  assume a: "fst (Next ctx opr) = Inr out \<and> b < length vectors"
  then have nx: "fst (Next ctx opr) = Inr out" and b: "b < length vectors" by simp_all
  note st = Next_step [OF nx assms b]
  show "Histograms (out ! b) = []" by (rule st(3))
  show "HistogramIDs (out ! b) = []" by (rule st(4))
  show "drop (length (validSamples (call opr) (scalarPoints (snd (Next ctx opr)) ! b)
                             (samples (vectors ! b))))
               (samples (out ! b))
             = map (\<lambda>p. (fst p, fst (call opr (Float 0) (Some (snd p)) (scalarPoints (snd (Next ctx opr)) ! b))))
                 (filter (\<lambda>p. snd (call opr (Float 0) (Some (snd p)) (scalarPoints (snd (Next ctx opr)) ! b)))
                    (histograms (vectors ! b)))"
    by (simp add: st(2) validHistograms_def)
qed

theorem Next_histograms_witness:
  "ready ex_operator [ex_vector]
   \<and> fst (Next None ex_operator)
     = Inr [\<lparr>T = 1000, SampleIDs = [0, 2, 5], Samples = [Float 11, Float 13, Float 9],
              HistogramIDs = [], Histograms = []\<rparr>]
   \<and> histograms ex_vector = [(5, True), (6, False)]
   \<and> drop 2 (samples \<lparr>T = 1000, SampleIDs = [0, 2, 5], Samples = [Float 11, Float 13, Float 9],
              HistogramIDs = [], Histograms = ([] :: bool list)\<rparr>) = [(5, Float 9)]"
proof -
  have h1: "fst (Next None ex_operator)
     = Inr [\<lparr>T = 1000, SampleIDs = [0, 2, 5], Samples = [Float 11, Float 13, Float 9],
              HistogramIDs = [], Histograms = []\<rparr>]"
    by code_simp
  have h2: "fst (child_Next (nextOps ex_operator ! vectorIndex ex_operator)) = Inr [ex_vector]"
    by code_simp
  have h3: "\<forall>v\<in>set [ex_vector]. wellFormed v"
    by (simp add: wellFormed_def ex_vector_def)
  have r: "ready ex_operator [ex_vector]" by code_simp
  have pts: "scalarPoints (snd (Next None ex_operator)) = [[Float 10, NaN]]" by code_simp
  have c: "call ex_operator = ex_call" by (simp add: ex_operator_def)
  have v1: "validSamples ex_call [Float 10, NaN] (samples ex_vector) = [(0, Float 11), (2, Float 13)]"
    by code_simp
  have hs: "histograms ex_vector = [(5, True), (6, False)]" by code_simp
  from Next_histograms [OF h2 h3, of None] h1
  have "drop (length (validSamples ex_call [Float 10, NaN] (samples ex_vector)))
          (samples (hd [\<lparr>T = 1000, SampleIDs = [0, 2, 5], Samples = [Float 11, Float 13, Float 9],
              HistogramIDs = [], Histograms = ([] :: bool list)\<rparr>]))
        = map (\<lambda>p. (fst p, fst (ex_call (Float 0) (Some (snd p)) [Float 10, NaN])))
            (filter (\<lambda>p. snd (ex_call (Float 0) (Some (snd p)) [Float 10, NaN])) (histograms ex_vector))"
    by (auto simp: pts c)
  with r h1 hs show ?thesis by (simp add: v1 ex_call_def samples_def)
qed




text \<open>
  A scalar child that answers a batch that is not empty and has fewer steps than the vector
  batch: \<^verbatim>\<open>scalarVectors[batchIndex]\<close> is out of range at the second step.
\<close>

lemma newInstantVectorFunctionOperator_ex_short:
  "newInstantVectorFunctionOperator ex_instantVectorFuncs
       \<lparr>Func_Name = ''f'', Args_Type = [ValueTypeVector, ValueTypeScalar], String = ''f(up, 10)''\<rparr>
       [ex_twoStepOp, ex_scalarOp] 2 \<lparr>Start = 0, End = 10000, Step = 5000000000\<rparr>
     = Inr (FunctionOperator ex_short)"
  by (simp add: newInstantVectorFunctionOperator_def ex_instantVectorFuncs_def ex_short_def
        numeral_2_eq_2)

lemma Next_short_scalar_batch:
  "fst (Next None ex_short) = Inl (Panic ''index out of range'')"
  by code_simp


section \<open>Series, runs of calls and errors\<close>

lemma map_update_same: "f c = f (xs ! i) \<Longrightarrow> map f (xs[i := c]) = map f xs"
  by (cases "i < length xs") (simp_all add: map_update list_update_same_conv list_update_beyond)

lemma pullScalars_Cons_any:
  assumes "pullScalars n (i # rest) k opr = (r, opr')"
  shows "(i = vectorIndex opr \<and> pullScalars n rest k opr = (r, opr'))
   \<or> (i \<noteq> vectorIndex opr \<and>
        opr' = opr\<lparr>nextOps := (nextOps opr)[i := snd (child_Next (nextOps opr ! i))]\<rparr>)
   \<or> (i \<noteq> vectorIndex opr \<and>
        (\<exists>pts. pullScalars n rest (Suc k)
                 (opr\<lparr>nextOps := (nextOps opr)[i := snd (child_Next (nextOps opr ! i))],
                      scalarPoints := pts\<rparr>) = (r, opr')))"
  using assms by (auto split: if_splits prod.splits sum.splits)

lemma pullScalars_seriesPulls:
  "pullScalars n is k opr = (r, opr') \<Longrightarrow> seriesPulls opr' = seriesPulls opr"
proof (induction "is" arbitrary: k opr)
  case Nil
  then show ?case by simp
next
  case (Cons i rest)
  have upd: "map seriesCalls ((nextOps opr)[i := snd (child_Next (nextOps opr ! i))])
             = map seriesCalls (nextOps opr)"
    by (rule map_update_same) (simp add: child_Next_series)
  from pullScalars_Cons_any [OF Cons.prems] show ?case
  proof (elim disjE conjE exE)
    assume "pullScalars n rest k opr = (r, opr')"
    then show ?thesis by (rule Cons.IH)
  next
    assume "opr' = opr\<lparr>nextOps := (nextOps opr)[i := snd (child_Next (nextOps opr ! i))]\<rparr>"
    then show ?thesis using upd by (simp add: seriesPulls_def)
  next
    fix pts
    assume "pullScalars n rest (Suc k)
              (opr\<lparr>nextOps := (nextOps opr)[i := snd (child_Next (nextOps opr ! i))],
                   scalarPoints := pts\<rparr>) = (r, opr')"
    from Cons.IH [OF this] upd show ?thesis by (simp add: seriesPulls_def)
  qed
qed

lemma loadSeries_once: "once opr \<Longrightarrow> loadSeries opr = (None, opr)"
  by (simp add: loadSeries_def)

lemma loadSeries_seriesPulls:
  "list_all2 (\<lambda>a b. a \<le> Suc b) (seriesPulls (snd (loadSeries opr))) (seriesPulls opr)"
  by (auto simp: loadSeries_def child_Series_def seriesPulls_def list_all2_conv_all_nth nth_list_update
           split: sum.splits)

lemma Next_frame:
  "\<exists>opr1. (opr1 = opr \<or> opr1 = snd (loadSeries opr))
     \<and> series (snd (Next ctx opr)) = series opr1 \<and> once (snd (Next ctx opr)) = once opr1
     \<and> seriesPulls (snd (Next ctx opr)) = seriesPulls opr1"
proof (cases ctx)
  case (Some err)
  then show ?thesis by (intro exI [of _ opr]) (simp add: Next_def)
next
  case None
  obtain lr opr1 where ld: "loadSeries opr = (lr, opr1)" by (cases "loadSeries opr")
  let ?vi = "vectorIndex opr1"
  obtain cr c where cn: "child_Next (nextOps opr1 ! ?vi) = (cr, c)"
    by (cases "child_Next (nextOps opr1 ! ?vi)")
  let ?opr2 = "opr1\<lparr>nextOps := (nextOps opr1)[?vi := c]\<rparr>"
  have c: "c = snd (child_Next (nextOps opr1 ! ?vi))" using cn by simp
  have upd: "seriesPulls ?opr2 = seriesPulls opr1"
    unfolding seriesPulls_def c by (simp add: map_update_same child_Next_series)
  have fr2: "series ?opr2 = series opr1" "once ?opr2 = once opr1" by simp_all
  have "series (snd (Next ctx opr)) = series opr1 \<and> once (snd (Next ctx opr)) = once opr1
     \<and> seriesPulls (snd (Next ctx opr)) = seriesPulls opr1"
  proof (cases lr)
    case (Some err)
    with None ld show ?thesis by (simp add: Next_def)
  next
    case lrNone: None
    show ?thesis
    proof (cases "length (nextOps opr1) \<le> ?vi")
      case True
      with None ld lrNone show ?thesis by (simp add: Next_def)
    next
      case inr: False
      show ?thesis
      proof (cases cr)
        case (Inl err)
        with None ld lrNone inr cn upd show ?thesis by (simp add: Next_def)
      next
        case (Inr vectors)
        show ?thesis
        proof (cases "vectors = []")
          case True
          with None ld lrNone inr cn Inr upd show ?thesis by (simp add: Next_def)
        next
          case False
          obtain pr opr3 where
            pl: "pullScalars (length vectors) [0..<length (nextOps ?opr2)] 0 ?opr2 = (pr, opr3)"
            by (cases "pullScalars (length vectors) [0..<length (nextOps ?opr2)] 0 ?opr2")
          have st: "snd (Next ctx opr) = opr3"
            using None ld lrNone inr cn Inr False pl
            by (simp add: Next_def Let_def split: option.splits sum.splits)
          from pullScalars_frame [OF pl] pullScalars_seriesPulls [OF pl] upd
          show ?thesis by (simp add: st)
        qed
      qed
    qed
  qed
  with ld show ?thesis by auto
qed

lemma Series_state: "snd (Series ctx opr) = snd (loadSeries opr)"
  by (simp add: Series_def split: prod.splits option.splits)

lemma loadSeries_sets_once: "once (snd (loadSeries opr))"
  by (auto simp: loadSeries_def child_Series_def split: sum.splits)

lemma call_step_once:
  assumes "once opr" and "opr' = snd (Series ctx opr) \<or> opr' = snd (Next ctx opr)"
  shows "once opr' \<and> series opr' = series opr \<and> seriesPulls opr' = seriesPulls opr"
  using assms Next_frame [of opr ctx] by (auto simp: Series_state loadSeries_once)

lemma call_step:
  assumes "opr' = snd (Series ctx opr) \<or> opr' = snd (Next ctx opr)"
  shows "(once opr' \<and> list_all2 (\<lambda>a b. a \<le> Suc b) (seriesPulls opr') (seriesPulls opr))
       \<or> seriesPulls opr' = seriesPulls opr"
  using assms Next_frame [of opr ctx] loadSeries_seriesPulls [of opr] loadSeries_sets_once [of opr]
  by (auto simp: Series_state)

lemma run_once:
  "once opr \<Longrightarrow> once (run ps opr) \<and> series (run ps opr) = series opr
     \<and> seriesPulls (run ps opr) = seriesPulls opr"
proof (induction ps arbitrary: opr)
  case Nil
  then show ?case by simp
next
  case (Cons p ps)
  show ?case
  proof (cases p)
    case (PullSeries ctx)
    from call_step_once [OF Cons.prems, of "snd (Series ctx opr)" ctx]
    have st: "once (snd (Series ctx opr))" "series (snd (Series ctx opr)) = series opr"
      "seriesPulls (snd (Series ctx opr)) = seriesPulls opr" by simp_all
    from Cons.IH [OF st(1)] st PullSeries show ?thesis by simp
  next
    case (PullNext ctx)
    from call_step_once [OF Cons.prems, of "snd (Next ctx opr)" ctx]
    have st: "once (snd (Next ctx opr))" "series (snd (Next ctx opr)) = series opr"
      "seriesPulls (snd (Next ctx opr)) = seriesPulls opr" by simp_all
    from Cons.IH [OF st(1)] st PullNext show ?thesis by simp
  qed
qed

lemma run_seriesPulls:
  "list_all2 (\<lambda>a b. a \<le> Suc b) (seriesPulls (run ps opr)) (seriesPulls opr)"
proof (induction ps arbitrary: opr)
  case Nil
  then show ?case by (simp add: list_all2_conv_all_nth)
next
  case (Cons p ps)
  obtain opr' ctx where
    p: "run (p # ps) opr = run ps opr'" "opr' = snd (Series ctx opr) \<or> opr' = snd (Next ctx opr)"
    by (cases p) auto
  from call_step [OF p(2)] show ?case
  proof
    assume "once opr' \<and> list_all2 (\<lambda>a b. a \<le> Suc b) (seriesPulls opr') (seriesPulls opr)"
    with run_once [of opr' ps] show ?thesis by (simp add: p(1))
  next
    assume "seriesPulls opr' = seriesPulls opr"
    with Cons.IH [of opr'] show ?thesis by (simp add: p(1))
  qed
qed

lemma dropLabel_Range_fst:
  "fst (dropLabel_Range name l (b, ret)) = b @ filter (\<lambda>lb. fst lb \<noteq> name) l"
  by (induction l arbitrary: b ret) auto

lemma DropMetricName_fst: "fst (DropMetricName l) = filter (\<lambda>lb. fst lb \<noteq> MetricName) l"
  by (simp add: DropMetricName_def dropLabel_def dropLabel_Range_fst)

lemma Series_once: "once opr \<Longrightarrow> Series ctx opr = (Inr (series opr), opr)"
  by (simp add: Series_def loadSeries_def)

lemma Series_Inr: "fst (Series ctx opr) = Inr a \<Longrightarrow> a = series (snd (Series ctx opr))"
  by (auto simp: Series_def split: prod.splits option.splits)

lemma child_Series_error_first_call:
  assumes "\<not> once opr" and "Func_Name (funcExpr opr) \<noteq> ''vector''"
      and "vectorIndex opr < length (nextOps opr)"
      and "seriesResult (nextOps opr ! vectorIndex opr) = Inl e"
  shows "fst (Series ctx opr) = Inl e" and "fst (Next None opr) = Inl e"
    and "map nextCalls (nextOps (snd (Next None opr))) = map nextCalls (nextOps opr)"
  using assms
  by (simp_all add: Series_def Next_def loadSeries_def child_Series_def map_update_same)

lemma child_Next_answers:
  "seriesResult (snd (child_Next c)) = seriesResult c"
  "set (nextResults (snd (child_Next c))) \<subseteq> set (nextResults c)"
  "fst (child_Next c) = Inl e \<Longrightarrow> Inl e \<in> set (nextResults c)"
  by (auto simp: child_Next_def split: list.splits)

lemma answers_nth: "i < length cs \<Longrightarrow> Inl e \<in> set (nextResults (cs ! i)) \<Longrightarrow> answers cs e"
  by (auto simp: answers_def)

lemma answers_update:
  assumes "answers (cs[i := snd (child_Next (cs ! i))]) e"
  shows "answers cs e"
proof (cases "i < length cs")
  case False
  with assms show ?thesis by (simp add: list_update_beyond not_less)
next
  case True
  let ?c = "snd (child_Next (cs ! i))"
  have sub: "set (cs[i := ?c]) \<subseteq> insert ?c (set cs)" by (rule set_update_subset_insert)
  have mem: "cs ! i \<in> set cs" using True by simp
  from assms show ?thesis
    unfolding answers_def
  proof
    assume "Inl e \<in> set (map seriesResult (cs[i := ?c]))"
    then obtain c where c: "c \<in> set (cs[i := ?c])" "seriesResult c = Inl e" by auto
    with sub have "c = ?c \<or> c \<in> set cs" by auto
    with c(2) mem child_Next_answers(1) [of "cs ! i"]
    have "\<exists>c'\<in>set cs. seriesResult c' = Inl e" by auto
    then show "Inl e \<in> set (map seriesResult cs) \<or> Inl e \<in> set (concat (map nextResults cs))"
      by force
  next
    assume "Inl e \<in> set (concat (map nextResults (cs[i := ?c])))"
    then obtain c where c: "c \<in> set (cs[i := ?c])" "Inl e \<in> set (nextResults c)" by auto
    with sub have "c = ?c \<or> c \<in> set cs" by auto
    with c(2) mem child_Next_answers(2) [of "cs ! i"]
    have "\<exists>c'\<in>set cs. Inl e \<in> set (nextResults c')" by auto
    then show "Inl e \<in> set (map seriesResult cs) \<or> Inl e \<in> set (concat (map nextResults cs))"
      by auto
  qed
qed

lemma fillScalarPoints_error:
  "fillScalarPoints svs k bs pts = Inl e \<Longrightarrow> \<exists>p. e = Panic p"
  by (induction bs arbitrary: pts) (auto simp: Let_def split: if_splits)

lemma applyHistograms_error:
  "applyHistograms f args v = Inl e \<Longrightarrow> \<exists>p. e = Panic p"
proof (induction n \<equiv> "length (Histograms v)" arbitrary: v)
  case 0
  then show ?case by (subst (asm) applyHistograms.simps) simp
next
  case (Suc n)
  let ?r = "f (Float 0) (Some (Histograms v ! 0)) args"
  let ?removed = "RemoveHistogram v 0"
  let ?v' = "if snd ?r then AppendSample ?removed (HistogramIDs v ! 0) (fst ?r) else ?removed"
  have ne: "Histograms v \<noteq> []" using Suc.hyps(2) by (cases "Histograms v") simp_all
  show ?case
  proof (cases "HistogramIDs v = []")
    case True
    with Suc.prems ne show ?thesis
      by (subst (asm) applyHistograms.simps) (auto simp: Let_def)
  next
    case False
    with Suc.prems ne have rec: "applyHistograms f args ?v' = Inl e"
      by (subst (asm) applyHistograms.simps) (simp add: Let_def)
    have "n = length (Histograms ?v')"
      using Suc.hyps(2) by (simp add: RemoveHistogram_def AppendSample_def Delete_def)
    from Suc.hyps(1) [OF this rec] show ?thesis .
  qed
qed

lemma applyStep_error: "applyStep opr b v = Inl e \<Longrightarrow> \<exists>p. e = Panic p"
  by (auto simp: applyStep_def split: if_splits dest: applyHistograms_error)

lemma applyBatch_error: "applyBatch opr b vs = Inl e \<Longrightarrow> \<exists>p. e = Panic p"
  by (induction vs arbitrary: b) (auto split: sum.splits dest: applyStep_error)

lemma pullScalars_Cons_Some:
  fixes opr :: "'h functionOperator"
  assumes "pullScalars n (i # rest) k opr = (Some e, opr')"
  shows "(i = vectorIndex opr \<and> pullScalars n rest k opr = (Some e, opr'))
   \<or> (i \<noteq> vectorIndex opr \<and> fst (child_Next (nextOps opr ! i)) = Inl e)
   \<or> (i \<noteq> vectorIndex opr \<and> (\<exists>svs :: 'h StepVector list. fillScalarPoints svs k [0..<n] (scalarPoints opr) = Inl e))
   \<or> (i \<noteq> vectorIndex opr \<and>
        (\<exists>pts. pullScalars n rest (Suc k)
                 (opr\<lparr>nextOps := (nextOps opr)[i := snd (child_Next (nextOps opr ! i))],
                      scalarPoints := pts\<rparr>) = (Some e, opr')))"
  using assms by (auto split: if_splits prod.splits sum.splits)

lemma pullScalars_error:
  "pullScalars n is k opr = (Some e, opr') \<Longrightarrow> \<forall>i\<in>set is. i < length (nextOps opr) \<Longrightarrow>
   (\<exists>p. e = Panic p) \<or> answers (nextOps opr) e"
proof (induction "is" arbitrary: k opr)
  case Nil
  then show ?case by simp
next
  case (Cons i rest)
  from pullScalars_Cons_Some [OF Cons.prems(1)] show ?case
  proof (elim disjE conjE exE)
    assume "pullScalars n rest k opr = (Some e, opr')"
    from Cons.IH [OF this] Cons.prems(2) show ?thesis by simp
  next
    assume "fst (child_Next (nextOps opr ! i)) = Inl e"
    from child_Next_answers(3) [OF this] Cons.prems(2) show ?thesis
      by (auto intro: answers_nth)
  next
    fix svs :: "'a StepVector list"
    assume "fillScalarPoints svs k [0..<n] (scalarPoints opr) = Inl e"
    then show ?thesis by (auto dest: fillScalarPoints_error)
  next
    fix pts
    let ?opr1 = "opr\<lparr>nextOps := (nextOps opr)[i := snd (child_Next (nextOps opr ! i))],
                      scalarPoints := pts\<rparr>"
    assume "pullScalars n rest (Suc k) ?opr1 = (Some e, opr')"
    from Cons.IH [OF this] Cons.prems(2)
    have "(\<exists>p. e = Panic p) \<or> answers (nextOps ?opr1) e" by simp
    then show ?thesis by (auto dest: answers_update)
  qed
qed

lemma loadSeries_maps:
  "map seriesResult (nextOps (snd (loadSeries opr))) = map seriesResult (nextOps opr)"
  "map nextResults (nextOps (snd (loadSeries opr))) = map nextResults (nextOps opr)"
  by (simp_all add: loadSeries_def child_Series_def map_update_same split: sum.splits)

lemma loadSeries_answers:
  "answers (nextOps (snd (loadSeries opr))) e = answers (nextOps opr) e"
  unfolding answers_def loadSeries_maps ..

lemma loadSeries_error:
  assumes "loadSeries opr = (Some e, opr1)"
  shows "(\<exists>p. e = Panic p) \<or> answers (nextOps opr) e"
proof (cases "vectorIndex opr < length (nextOps opr)
              \<and> seriesResult (nextOps opr ! vectorIndex opr) = Inl e")
  case True
  then have "map seriesResult (nextOps opr) ! vectorIndex opr = Inl e"
    "vectorIndex opr < length (map seriesResult (nextOps opr))" by simp_all
  then have "Inl e \<in> set (map seriesResult (nextOps opr))" by (metis nth_mem)
  then show ?thesis by (simp add: answers_def)
next
  case False
  with assms show ?thesis
    by (auto simp: loadSeries_def child_Series_def split: if_splits sum.splits)
qed


lemma Next_error_origin:
  assumes "fst (Next ctx opr) = Inl e"
  shows "ctx = Some e \<or> (\<exists>p. e = Panic p) \<or> answers (nextOps opr) e"
proof (cases ctx)
  case (Some err)
  with assms show ?thesis by (simp add: Next_def)
next
  case None
  obtain lr opr1 where ld: "loadSeries opr = (lr, opr1)" by (cases "loadSeries opr")
  have an1: "answers (nextOps opr1) e = answers (nextOps opr) e"
    using loadSeries_answers [of opr e] ld by simp
  let ?vi = "vectorIndex opr1"
  obtain cr c where cn: "child_Next (nextOps opr1 ! ?vi) = (cr, c)"
    by (cases "child_Next (nextOps opr1 ! ?vi)")
  have c: "c = snd (child_Next (nextOps opr1 ! ?vi))" using cn by simp
  let ?opr2 = "opr1\<lparr>nextOps := (nextOps opr1)[?vi := c]\<rparr>"
  have an2: "answers (nextOps ?opr2) e \<Longrightarrow> answers (nextOps opr1) e"
    unfolding c by (auto dest: answers_update)
  show ?thesis
  proof (cases lr)
    case (Some err)
    with assms None ld have "err = e" by (simp add: Next_def)
    with loadSeries_error [of opr e opr1] ld Some show ?thesis by simp
  next
    case lrNone: None
    show ?thesis
    proof (cases "length (nextOps opr1) \<le> ?vi")
      case True
      with assms None ld lrNone show ?thesis by (auto simp: Next_def)
    next
      case inr: False
      show ?thesis
      proof (cases cr)
        case (Inl err)
        with assms None ld lrNone inr cn have "err = e" by (simp add: Next_def)
        with cn Inl have "fst (child_Next (nextOps opr1 ! ?vi)) = Inl e" by simp
        from child_Next_answers(3) [OF this] inr have "answers (nextOps opr1) e"
          using answers_nth [of ?vi "nextOps opr1" e] by simp
        with an1 show ?thesis by simp
      next
        case (Inr vectors)
        show ?thesis
        proof (cases "vectors = []")
          case True
          with assms None ld lrNone inr cn Inr show ?thesis by (simp add: Next_def)
        next
          case False
          obtain pr opr3 where
            pl: "pullScalars (length vectors) [0..<length (nextOps ?opr2)] 0 ?opr2 = (pr, opr3)"
            by (cases "pullScalars (length vectors) [0..<length (nextOps ?opr2)] 0 ?opr2")
          show ?thesis
          proof (cases pr)
            case (Some err)
            with assms None ld lrNone inr cn Inr False pl have "err = e"
              by (simp add: Next_def Let_def)
            with pl Some have "pullScalars (length vectors) [0..<length (nextOps ?opr2)] 0 ?opr2 = (Some e, opr3)"
              by simp
            from pullScalars_error [OF this] have "(\<exists>p. e = Panic p) \<or> answers (nextOps ?opr2) e"
              by simp
            with an2 an1 show ?thesis by auto
          next
            case prNone: None
            with assms None ld lrNone inr cn Inr False pl
            have "applyBatch opr3 0 vectors = Inl e"
              by (simp add: Next_def Let_def split: sum.splits)
            then show ?thesis by (auto dest: applyBatch_error)
          qed
        qed
      qed
    qed
  qed
qed

lemma Next_vector_child_error:
  assumes "fst (loadSeries opr) = None" and "vectorIndex opr < length (nextOps opr)"
      and "fst (child_Next (nextOps opr ! vectorIndex opr)) = Inl e"
  shows "fst (Next None opr) = Inl e"
    and "i \<noteq> vectorIndex opr \<Longrightarrow> nextOps (snd (Next None opr)) ! i = nextOps opr ! i"
proof -
  obtain opr1 where ld: "loadSeries opr = (None, opr1)"
    using assms(1) by (cases "loadSeries opr") simp
  note fr = loadSeries_frame [OF ld]
  have "fst (child_Next (nextOps opr1 ! vectorIndex opr1)) = fst (child_Next (nextOps opr ! vectorIndex opr))"
    by (rule child_Next_cong) (simp add: fr)
  with assms(3) obtain c where cn: "child_Next (nextOps opr1 ! vectorIndex opr1) = (Inl e, c)"
    by (cases "child_Next (nextOps opr1 ! vectorIndex opr1)") simp
  have nx: "Next None opr = (Inl e, opr1\<lparr>nextOps := (nextOps opr1)[vectorIndex opr1 := c]\<rparr>)"
    using ld cn assms(2) fr by (simp add: Next_def)
  show "fst (Next None opr) = Inl e" by (simp add: nx)
  show "nextOps (snd (Next None opr)) ! i = nextOps opr ! i" if "i \<noteq> vectorIndex opr"
    using that fr by (simp add: nx)
qed

lemma pullScalars_Cons_error:
  fixes opr :: "'h functionOperator"
  assumes "pullScalars n (i # rest) k opr = (Some e, opr')"
  shows "(i = vectorIndex opr \<and> pullScalars n rest k opr = (Some e, opr'))
   \<or> (i \<noteq> vectorIndex opr
       \<and> (fst (child_Next (nextOps opr ! i)) = Inl e \<or> (\<exists>p. e = Panic p))
       \<and> opr' = opr\<lparr>nextOps := (nextOps opr)[i := snd (child_Next (nextOps opr ! i))]\<rparr>)
   \<or> (i \<noteq> vectorIndex opr \<and>
        (\<exists>pts. pullScalars n rest (Suc k)
                 (opr\<lparr>nextOps := (nextOps opr)[i := snd (child_Next (nextOps opr ! i))],
                      scalarPoints := pts\<rparr>) = (Some e, opr')))"
  using assms
  by (auto split: if_splits prod.splits sum.splits dest: fillScalarPoints_error)

lemma pullScalars_error_stops:
  "pullScalars n is k opr = (Some e, opr') \<Longrightarrow> distinct is \<Longrightarrow>
   \<exists>before i after. is = before @ i # after \<and> i \<noteq> vectorIndex opr
     \<and> (fst (child_Next (nextOps opr ! i)) = Inl e \<or> (\<exists>p. e = Panic p))
     \<and> (\<forall>j\<in>set after. nextOps opr' ! j = nextOps opr ! j)"
proof (induction "is" arbitrary: k opr)
  case Nil
  then show ?case by simp
next
  case (Cons i0 rest)
  from Cons.prems(2) have d: "distinct rest" "i0 \<notin> set rest" by simp_all
  have ne: "i0 \<noteq> j" if "j \<in> set rest" for j using that d(2) by auto
  from pullScalars_Cons_error [OF Cons.prems(1)] show ?case
  proof (elim disjE)
    assume "i0 = vectorIndex opr \<and> pullScalars n rest k opr = (Some e, opr')"
    then have rec: "pullScalars n rest k opr = (Some e, opr')" by simp
    from Cons.IH [OF rec d(1)] obtain before i after where
      "rest = before @ i # after" "i \<noteq> vectorIndex opr"
      "fst (child_Next (nextOps opr ! i)) = Inl e \<or> (\<exists>p. e = Panic p)"
      "\<forall>j\<in>set after. nextOps opr' ! j = nextOps opr ! j"
      by blast
    then have "i0 # rest = (i0 # before) @ i # after \<and> i \<noteq> vectorIndex opr
      \<and> (fst (child_Next (nextOps opr ! i)) = Inl e \<or> (\<exists>p. e = Panic p))
      \<and> (\<forall>j\<in>set after. nextOps opr' ! j = nextOps opr ! j)" by simp
    then show ?thesis by blast
  next
    assume "i0 \<noteq> vectorIndex opr
       \<and> (fst (child_Next (nextOps opr ! i0)) = Inl e \<or> (\<exists>p. e = Panic p))
       \<and> opr' = opr\<lparr>nextOps := (nextOps opr)[i0 := snd (child_Next (nextOps opr ! i0))]\<rparr>"
    with ne have "i0 # rest = [] @ i0 # rest \<and> i0 \<noteq> vectorIndex opr
      \<and> (fst (child_Next (nextOps opr ! i0)) = Inl e \<or> (\<exists>p. e = Panic p))
      \<and> (\<forall>j\<in>set rest. nextOps opr' ! j = nextOps opr ! j)" by auto
    then show ?thesis by blast
  next
    assume "i0 \<noteq> vectorIndex opr \<and>
        (\<exists>pts. pullScalars n rest (Suc k)
                 (opr\<lparr>nextOps := (nextOps opr)[i0 := snd (child_Next (nextOps opr ! i0))],
                      scalarPoints := pts\<rparr>) = (Some e, opr'))"
    then obtain pts where
      rec: "pullScalars n rest (Suc k)
                 (opr\<lparr>nextOps := (nextOps opr)[i0 := snd (child_Next (nextOps opr ! i0))],
                      scalarPoints := pts\<rparr>) = (Some e, opr')"
      by blast
    let ?opr1 = "opr\<lparr>nextOps := (nextOps opr)[i0 := snd (child_Next (nextOps opr ! i0))],
                      scalarPoints := pts\<rparr>"
    from Cons.IH [OF rec d(1)] obtain before i after where
      r: "rest = before @ i # after" "i \<noteq> vectorIndex opr"
      "fst (child_Next (nextOps ?opr1 ! i)) = Inl e \<or> (\<exists>p. e = Panic p)"
      "\<forall>j\<in>set after. nextOps opr' ! j = nextOps ?opr1 ! j"
      by auto
    from r(1) have "i \<in> set rest" "set after \<subseteq> set rest" by auto
    with ne r have "i0 # rest = (i0 # before) @ i # after \<and> i \<noteq> vectorIndex opr
      \<and> (fst (child_Next (nextOps opr ! i)) = Inl e \<or> (\<exists>p. e = Panic p))
      \<and> (\<forall>j\<in>set after. nextOps opr' ! j = nextOps opr ! j)" by auto
    then show ?thesis by blast
  qed
qed

text \<open>
  C2. On an operator whose \<^verbatim>\<open>once\<close> has not run, \<^verbatim>\<open>Series\<close> of the function
  \<^verbatim>\<open>vector\<close> returns the single empty label set and pulls no child; for any other
  function it returns the series of the vector child, each without its labels named
  \<^verbatim>\<open>__name__\<close>. An array that \<^verbatim>\<open>Series\<close> returns is the one stored in the
  operator, and after the first \<^verbatim>\<open>Series\<close> call every later \<^verbatim>\<open>Series\<close> call, after
  any run of further \<^verbatim>\<open>Series\<close> and \<^verbatim>\<open>Next\<close> calls, returns that stored array,
  and no child's \<^verbatim>\<open>Series\<close> is called again. Over any run of calls on any operator,
  \<^verbatim>\<open>Series\<close> is called at most once on each child.
\<close>

theorem Series_computed_once:
  "(\<not> once opr \<and> Func_Name (funcExpr opr) = ''vector''
      \<longrightarrow> fst (Series ctx opr) = Inr [[]] \<and> seriesPulls (snd (Series ctx opr)) = seriesPulls opr)
   \<and> (\<not> once opr \<and> Func_Name (funcExpr opr) \<noteq> ''vector'' \<and> vectorIndex opr < length (nextOps opr)
        \<and> seriesResult (nextOps opr ! vectorIndex opr) = Inr ss
      \<longrightarrow> fst (Series ctx opr) = Inr (map (filter (\<lambda>l. fst l \<noteq> MetricName)) ss))
   \<and> (fst (Series ctx opr) = Inr a \<longrightarrow> a = series (snd (Series ctx opr)))
   \<and> fst (Series ctx' (run ps (snd (Series ctx opr)))) = Inr (series (snd (Series ctx opr)))
   \<and> seriesPulls (run ps (snd (Series ctx opr))) = seriesPulls (snd (Series ctx opr))
   \<and> list_all2 (\<lambda>a b. a \<le> Suc b) (seriesPulls (run ps opr)) (seriesPulls opr)"
proof (intro conjI impI)
  assume "\<not> once opr \<and> Func_Name (funcExpr opr) = ''vector''"
  then show "fst (Series ctx opr) = Inr [[]]" "seriesPulls (snd (Series ctx opr)) = seriesPulls opr"
    by (simp_all add: Series_def loadSeries_def seriesPulls_def)
next
  assume "\<not> once opr \<and> Func_Name (funcExpr opr) \<noteq> ''vector'' \<and> vectorIndex opr < length (nextOps opr)
        \<and> seriesResult (nextOps opr ! vectorIndex opr) = Inr ss"
  then show "fst (Series ctx opr) = Inr (map (filter (\<lambda>l. fst l \<noteq> MetricName)) ss)"
    by (simp add: Series_def loadSeries_def child_Series_def DropMetricName_fst)
next
  assume "fst (Series ctx opr) = Inr a"
  then show "a = series (snd (Series ctx opr))" by (rule Series_Inr)
next
  let ?opr1 = "snd (Series ctx opr)"
  have o: "once ?opr1" by (simp add: Series_state loadSeries_sets_once)
  note r = run_once [OF o, of ps]
  from r show "fst (Series ctx' (run ps ?opr1)) = Inr (series ?opr1)" by (simp add: Series_once)
  from r show "seriesPulls (run ps ?opr1) = seriesPulls ?opr1" by simp
next
  show "list_all2 (\<lambda>a b. a \<le> Suc b) (seriesPulls (run ps opr)) (seriesPulls opr)"
    by (rule run_seriesPulls)
qed

theorem Series_computed_once_witness:
  "fst (Series None ex_vectorFunction) = Inr [[]]
   \<and> seriesPulls (snd (Series None ex_vectorFunction)) = [0]
   \<and> fst (Series None ex_operator) = Inr [[(''job'', ''api'')], [(''job'', ''db'')], []]
   \<and> fst (Series None (run [PullNext None, PullSeries None] (snd (Series None ex_operator))))
       = Inr [[(''job'', ''api'')], [(''job'', ''db'')], []]
   \<and> seriesPulls (run [PullNext None, PullSeries None] (snd (Series None ex_operator))) = [0, 1, 0]"
proof -
  have v: "\<not> once ex_vectorFunction \<and> Func_Name (funcExpr ex_vectorFunction) = ''vector''"
    by (simp add: ex_vectorFunction_def)
  have f: "\<not> once ex_operator \<and> Func_Name (funcExpr ex_operator) \<noteq> ''vector''
       \<and> vectorIndex ex_operator < length (nextOps ex_operator)
       \<and> seriesResult (nextOps ex_operator ! vectorIndex ex_operator)
           = Inr [[(''__name__'', ''up''), (''job'', ''api'')], [(''job'', ''db'')], []]"
    by (simp add: ex_operator_def ex_vectorOp_def)
  have m: "map (filter (\<lambda>l. fst l \<noteq> MetricName))
             [[(''__name__'', ''up''), (''job'', ''api'')], [(''job'', ''db'')], []]
           = [[(''job'', ''api'')], [(''job'', ''db'')], []]"
    by (simp add: MetricName_def)
  have p0: "seriesPulls ex_vectorFunction = [0]"
    by (simp add: seriesPulls_def ex_vectorFunction_def ex_scalarOp_def)
  have p1: "seriesPulls (snd (Series None ex_operator)) = [0, 1, 0]"
    by code_simp
  note t1 = Series_computed_once [of ex_vectorFunction None "[]" "[]" None "[]"]
  note t2 = Series_computed_once [of ex_operator None
      "[[(''__name__'', ''up''), (''job'', ''api'')], [(''job'', ''db'')], []]"
      "[[(''job'', ''api'')], [(''job'', ''db'')], []]" None "[PullNext None, PullSeries None]"]
  from t1 v p0 have c1: "fst (Series None ex_vectorFunction) = Inr [[]]"
    "seriesPulls (snd (Series None ex_vectorFunction)) = [0]" by simp_all
  from t2 f m have c2: "fst (Series None ex_operator) = Inr [[(''job'', ''api'')], [(''job'', ''db'')], []]"
    by simp
  with t2 have s: "series (snd (Series None ex_operator)) = [[(''job'', ''api'')], [(''job'', ''db'')], []]"
    by simp
  from t2 p1 s have c3:
    "fst (Series None (run [PullNext None, PullSeries None] (snd (Series None ex_operator))))
       = Inr [[(''job'', ''api'')], [(''job'', ''db'')], []]"
    "seriesPulls (run [PullNext None, PullSeries None] (snd (Series None ex_operator))) = [0, 1, 0]"
    by simp_all
  from c1 c2 c3 show ?thesis by simp
qed

text \<open>
  C6 at the input where the code departs from it. The vector child's \<^verbatim>\<open>Series\<close>
  fails. The first \<^verbatim>\<open>Series\<close> call, and likewise a first \<^verbatim>\<open>Next\<close> call, fails with
  the child's error. A call made after that does not fail: \<^verbatim>\<open>Series\<close> returns the
  \<^verbatim>\<open>nil\<close> array without an error, and \<^verbatim>\<open>Next\<close> pulls all three children and
  returns a batch.
\<close>

theorem Series_error_forgotten:
  "fst (Series None ex_failing) = Inl (Err ''storage unavailable'')
   \<and> fst (Series None (snd (Series None ex_failing))) = Inr []
   \<and> fst (Next None (snd (Series None ex_failing)))
       = Inr [\<lparr>T = 1000, SampleIDs = [0, 2, 5], Samples = [Float 11, Float 13, Float 9],
                HistogramIDs = [], Histograms = []\<rparr>]
   \<and> map nextCalls (nextOps (snd (Next None (snd (Series None ex_failing))))) = [1, 1, 1]
   \<and> fst (Next None ex_failing) = Inl (Err ''storage unavailable'')
   \<and> fst (Next None (snd (Next None ex_failing)))
       = Inr [\<lparr>T = 1000, SampleIDs = [0, 2, 5], Samples = [Float 11, Float 13, Float 9],
                HistogramIDs = [], Histograms = []\<rparr>]"
  by code_simp

text \<open>
  C8. For a name that is none of the specially dispatched ones and is missing from the table
  that applies (the no-argument table without operator inputs, the instant-vector table
  otherwise), the constructor returns the unknown-function error and no operator. \<^verbatim>\<open>Next\<close>
  never makes that error: it can only return it when the context or a child hands it over.
\<close>

theorem NewFunctionOperator_unknown_function:
  fixes ops :: "'h Child list"
  assumes "Func_Name fe \<notin> {''scalar'', ''label_join'', ''label_replace'', ''absent'', ''histogram_quantile''}"
      and "if ops = [] then noArgFuncs (Func_Name fe) = None
           else instantVectorFuncs (Func_Name fe) = None"
  shows "NewFunctionOperator noArgFuncs instantVectorFuncs fe ops stepsBatch opts
           = Inl (UnknownFunctionError (Func_Name fe))
     \<and> (\<forall>ctx (opr :: 'h functionOperator).
           ctx \<noteq> Some (UnknownFunctionError (Func_Name fe))
           \<and> \<not> answers (nextOps opr) (UnknownFunctionError (Func_Name fe))
           \<longrightarrow> fst (Next ctx opr) \<noteq> Inl (UnknownFunctionError (Func_Name fe)))"
proof
  from assms
  show "NewFunctionOperator noArgFuncs instantVectorFuncs fe ops stepsBatch opts
           = Inl (UnknownFunctionError (Func_Name fe))"
    by (auto simp: NewFunctionOperator_def newNoArgsFunctionOperator_def
          newInstantVectorFunctionOperator_def split: if_splits)
  show "\<forall>ctx (opr :: 'h functionOperator).
           ctx \<noteq> Some (UnknownFunctionError (Func_Name fe))
           \<and> \<not> answers (nextOps opr) (UnknownFunctionError (Func_Name fe))
           \<longrightarrow> fst (Next ctx opr) \<noteq> Inl (UnknownFunctionError (Func_Name fe))"
    using Next_error_origin by blast
qed

theorem NewFunctionOperator_unknown_function_witness:
  "NewFunctionOperator ex_noArgFuncs ex_instantVectorFuncs
       \<lparr>Func_Name = ''no_such_function'', Args_Type = [ValueTypeVector], String = ''no_such_function(up)''\<rparr>
       [ex_vectorOp] 10 \<lparr>Start = 0, End = 10000, Step = 5000000000\<rparr>
     = Inl (UnknownFunctionError ''no_such_function'')
   \<and> NewFunctionOperator ex_noArgFuncs ex_instantVectorFuncs
       \<lparr>Func_Name = ''no_such_function'', Args_Type = [], String = ''no_such_function()''\<rparr>
       [] 10 \<lparr>Start = 0, End = 10000, Step = 5000000000\<rparr>
     = Inl (UnknownFunctionError ''no_such_function'')
   \<and> fst (Next None ex_operator) \<noteq> Inl (UnknownFunctionError ''no_such_function'')"
proof -
  let ?na = ex_noArgFuncs
  let ?iv = ex_instantVectorFuncs
  let ?fe1 = "\<lparr>Func_Name = ''no_such_function'', Args_Type = [ValueTypeVector], String = ''no_such_function(up)''\<rparr>"
  let ?fe0 = "\<lparr>Func_Name = ''no_such_function'', Args_Type = [], String = ''no_such_function()''\<rparr>"
  let ?opts = "\<lparr>Start = 0, End = 10000, Step = 5000000000\<rparr>"
  have n1: "Func_Name ?fe1 \<notin> {''scalar'', ''label_join'', ''label_replace'', ''absent'', ''histogram_quantile''}"
    by simp
  have n0: "Func_Name ?fe0 \<notin> {''scalar'', ''label_join'', ''label_replace'', ''absent'', ''histogram_quantile''}"
    by simp
  have t1: "if [ex_vectorOp] = [] then ?na (Func_Name ?fe1) = None else ?iv (Func_Name ?fe1) = None"
    by (simp add: ex_instantVectorFuncs_def)
  have t0: "if ([] :: bool Child list) = [] then ?na (Func_Name ?fe0) = None else ?iv (Func_Name ?fe0) = None"
    by (simp add: ex_noArgFuncs_def)
  have a: "\<not> answers (nextOps ex_operator) (UnknownFunctionError ''no_such_function'')"
    by (simp add: answers_def ex_operator_def ex_scalarOp_def ex_vectorOp_def ex_noSampleOp_def)
  note u1 = NewFunctionOperator_unknown_function [where fe = ?fe1 and ops = "[ex_vectorOp]"
      and noArgFuncs = ?na and instantVectorFuncs = ?iv and stepsBatch = 10 and opts = ?opts]
  note u0 = NewFunctionOperator_unknown_function [where fe = ?fe0 and ops = "[] :: bool Child list"
      and noArgFuncs = ?na and instantVectorFuncs = ?iv and stepsBatch = 10 and opts = ?opts]
  from u1 [OF n1 t1] u0 [OF n0 t0] a
  show ?thesis by simp
qed

end
